theory Spec2Isabelle
  imports Complex_Main
begin

section \<open>JavaScript strings\<close>

text \<open>
  A JavaScript string is a sequence of UTF-16 code units; \<open>length\<close>, \<open>substring\<close> and the
  regular expressions of the sources all count code units. A string is modelled as the list
  of its code units, each a natural number (below 65536 in an actual string). ASCII
  literals of the sources are written \<open>js ''...''\<close>.
\<close>

type_synonym jstring = "nat list"

definition js :: "string \<Rightarrow> jstring" where
  "js cs = map of_char cs"

definition substring0 :: "nat \<Rightarrow> jstring \<Rightarrow> jstring" where
  \<comment> \<open>\<open>s.substring(0, n)\<close>\<close>
  "substring0 n s = take n s"

section \<open>JavaScript numbers\<close>

text \<open>
  A JavaScript number is an IEEE 754 binary64 value: a finite double, an infinity or NaN.
  A finite double is modelled by the rational it denotes (the two zeros are one value,
  which no operation below tells apart), and every arithmetic operation rounds its exact
  result to the nearest double, ties to even, as \<open>fl\<close> does: 53 significant bits,
  gradual underflow below \<open>2^-1022\<close>, overflow to an infinity from \<open>2^1024\<close> on. A decimal
  literal of the source such as \<open>0.02\<close> denotes \<open>fl 0.02\<close>; literals that are small whole
  numbers are written as they are.
\<close>

datatype number =
    Finite rat
  | PosInfinity
  | NegInfinity
  | NaN

function bit_length :: "int \<Rightarrow> int" where
  \<comment> \<open>the number of binary digits of a positive integer\<close>
  "bit_length x = (if x \<le> 0 then 0 else 1 + bit_length (x div 2))"
  by pat_completeness auto
termination
  by (relation "measure nat") auto

declare bit_length.simps [simp del]

definition pow2 :: "int \<Rightarrow> rat" where
  "pow2 e = (if 0 \<le> e then 2 ^ nat e else 1 / 2 ^ nat (- e))"

definition floor_log2 :: "rat \<Rightarrow> int" where
  \<comment> \<open>for \<open>a > 0\<close>, the \<open>e\<close> with \<open>2^e \<le> a < 2^(e+1)\<close>\<close>
  "floor_log2 a =
     (if 1 \<le> a then bit_length \<lfloor>a\<rfloor> - 1 else - bit_length (\<lceil>1 / a\<rceil> - 1))"

definition round_half_even :: "rat \<Rightarrow> int" where
  "round_half_even y =
     (let f = \<lfloor>y\<rfloor>; r = y - of_int f
      in if r < 1 / 2 then f else if 1 / 2 < r then f + 1 else if even f then f else f + 1)"

definition fl :: "rat \<Rightarrow> number" where
  "fl x =
     (if x = 0 then Finite 0
      else
        let a = \<bar>x\<bar>;
            e = max (floor_log2 a) (- 1022);
            u = pow2 (e - 52);
            v = of_int (round_half_even (a / u)) * u
        in if pow2 1024 \<le> v then (if x < 0 then NegInfinity else PosInfinity)
           else Finite (if x < 0 then - v else v))"

fun is_negative :: "number \<Rightarrow> bool" where
  "is_negative (Finite a) = (a < 0)"
| "is_negative NegInfinity = True"
| "is_negative x = False"

fun num_neg :: "number \<Rightarrow> number" where
  "num_neg (Finite a) = Finite (- a)"
| "num_neg PosInfinity = NegInfinity"
| "num_neg NegInfinity = PosInfinity"
| "num_neg NaN = NaN"

fun num_add :: "number \<Rightarrow> number \<Rightarrow> number" where
  \<comment> \<open>\<open>x + y\<close>\<close>
  "num_add (Finite a) (Finite b) = fl (a + b)"
| "num_add NaN y = NaN"
| "num_add x NaN = NaN"
| "num_add PosInfinity NegInfinity = NaN"
| "num_add NegInfinity PosInfinity = NaN"
| "num_add PosInfinity y = PosInfinity"
| "num_add NegInfinity y = NegInfinity"
| "num_add x PosInfinity = PosInfinity"
| "num_add x NegInfinity = NegInfinity"

definition num_sub :: "number \<Rightarrow> number \<Rightarrow> number" where
  \<comment> \<open>\<open>x - y\<close>\<close>
  "num_sub x y = num_add x (num_neg y)"

fun num_mul :: "number \<Rightarrow> number \<Rightarrow> number" where
  \<comment> \<open>\<open>x * y\<close>\<close>
  "num_mul (Finite a) (Finite b) = fl (a * b)"
| "num_mul NaN y = NaN"
| "num_mul x NaN = NaN"
| "num_mul x y =
     (if x = Finite 0 \<or> y = Finite 0 then NaN
      else if is_negative x \<noteq> is_negative y then NegInfinity
      else PosInfinity)"

fun num_div :: "number \<Rightarrow> number \<Rightarrow> number" where
  \<comment> \<open>\<open>x / y\<close>; a zero divisor counts as the positive zero\<close>
  "num_div NaN y = NaN"
| "num_div x NaN = NaN"
| "num_div (Finite a) (Finite b) =
     (if b = 0 then (if a = 0 then NaN else if a < 0 then NegInfinity else PosInfinity)
      else fl (a / b))"
| "num_div (Finite a) y = Finite 0"
| "num_div x (Finite b) = (if is_negative x \<noteq> (b < 0) then NegInfinity else PosInfinity)"
| "num_div x y = NaN"

fun num_le :: "number \<Rightarrow> number \<Rightarrow> bool" where
  \<comment> \<open>\<open>x <= y\<close>, false when either is NaN\<close>
  "num_le NaN y = False"
| "num_le x NaN = False"
| "num_le (Finite a) (Finite b) = (a \<le> b)"
| "num_le NegInfinity y = True"
| "num_le x PosInfinity = True"
| "num_le x y = False"

fun num_less :: "number \<Rightarrow> number \<Rightarrow> bool" where
  \<comment> \<open>\<open>x < y\<close>, false when either is NaN\<close>
  "num_less NaN y = False"
| "num_less x NaN = False"
| "num_less (Finite a) (Finite b) = (a < b)"
| "num_less NegInfinity NegInfinity = False"
| "num_less PosInfinity PosInfinity = False"
| "num_less NegInfinity y = True"
| "num_less x PosInfinity = True"
| "num_less x y = False"

definition num_ge :: "number \<Rightarrow> number \<Rightarrow> bool" where
  \<comment> \<open>\<open>x >= y\<close>\<close>
  "num_ge x y = num_le y x"

definition num_gt :: "number \<Rightarrow> number \<Rightarrow> bool" where
  \<comment> \<open>\<open>x > y\<close>\<close>
  "num_gt x y = num_less y x"

definition num_falsy :: "number \<Rightarrow> bool" where
  \<comment> \<open>the falsy numbers: zero and NaN\<close>
  "num_falsy x = (x = Finite 0 \<or> x = NaN)"

section \<open>JavaScript values\<close>

text \<open>
  The values that \<open>JSON.parse\<close> produces and that requests carry: null, booleans, numbers,
  strings, arrays and plain objects (own properties in order, keys distinct).
  \<open>undefined\<close> is the \<open>None\<close> of \<open>json option\<close>.
\<close>

datatype json =
    JNull
  | JBool bool
  | JNum number
  | JStr jstring
  | JArr "json list"
  | JObj "(jstring \<times> json) list"

datatype js_error =
    SyntaxError
  | TypeError
  | Error jstring
  | FsError

fun truthy :: "json \<Rightarrow> bool" where
  "truthy JNull = False"
| "truthy (JBool b) = b"
| "truthy (JNum x) = (\<not> num_falsy x)"
| "truthy (JStr s) = (s \<noteq> [])"
| "truthy (JArr xs) = True"
| "truthy (JObj kvs) = True"

section \<open>Usage ledger (\<open>lib/usage-tracker.js\<close>)\<close>

text \<open>
  All amounts, costs and counters of the ledger are JavaScript numbers, and so are the
  token counts passed to \<open>track\<close>.
\<close>

record pricing =
  p_input :: "number option"
  p_output :: "number option"
  p_perImage :: "number option"

definition pricing_gemini_3_pro :: pricing where
  "pricing_gemini_3_pro =
     \<lparr>p_input = Some (fl 0.00025), p_output = Some (fl 0.0005), p_perImage = None\<rparr>"

definition pricing_image_generation :: pricing where
  "pricing_image_generation = \<lparr>p_input = None, p_output = None, p_perImage = Some (fl 0.02)\<rparr>"

definition pricing_gemini_2_flash :: pricing where
  "pricing_gemini_2_flash =
     \<lparr>p_input = Some (fl 0.0001), p_output = Some (fl 0.0002), p_perImage = None\<rparr>"

definition PRICING :: "jstring \<Rightarrow> pricing option" where
  "PRICING model =
     (if model = js ''gemini-3-pro-preview'' then Some pricing_gemini_3_pro
      else if model = js ''gemini-2.0-flash-preview-image-generation''
        then Some pricing_image_generation
      else if model = js ''gemini-2.0-flash'' then Some pricing_gemini_2_flash
      else None)"

definition DEFAULT_BUDGET :: number where
  "DEFAULT_BUDGET = Finite 10"

definition or_number :: "number option \<Rightarrow> number \<Rightarrow> number" where
  \<comment> \<open>\<open>x || d\<close> for a number or undefined \<open>x\<close>: undefined, zero and NaN are falsy\<close>
  "or_number x d = (case x of None \<Rightarrow> d | Some v \<Rightarrow> if num_falsy v then d else v)"

record session =
  startTime :: jstring
  budget :: number
  budgetUsed :: number

record totals =
  apiCalls :: number
  inputTokens :: number
  outputTokens :: number
  imagesGenerated :: number
  estimatedCost :: number

record model_stats =
  m_calls :: number
  m_inputTokens :: number
  m_outputTokens :: number
  m_cost :: number

record endpoint_stats =
  e_calls :: number
  e_cost :: number

record history_entry =
  h_timestamp :: jstring
  h_model :: jstring
  h_endpoint :: jstring
  h_inputTokens :: number
  h_outputTokens :: number
  h_isImage :: bool
  h_cost :: number
  h_prompt :: jstring

record asset_entry =
  a_timestamp :: jstring
  a_filename :: jstring
  a_prompt :: jstring
  a_model :: jstring
  a_path :: jstring

text \<open>
  \<open>this.data\<close> of the tracker. \<open>byModel\<close> and \<open>byEndpoint\<close> are plain objects used as
  dictionaries; they are maps here (keys are taken not to be names inherited from
  \<open>Object.prototype\<close>). \<open>save()\<close> writes \<open>this.data\<close> to \<open>usage-data.json\<close> and swallows
  every error of the write, so it never changes \<open>this.data\<close> and never throws: the
  operations below are functions on the in-memory ledger. The current time read by
  \<open>new Date().toISOString()\<close> is the parameter \<open>now\<close>.
\<close>

record ledger =
  session :: session
  totals :: totals
  byModel :: "jstring \<rightharpoonup> model_stats"
  byEndpoint :: "jstring \<rightharpoonup> endpoint_stats"
  history :: "history_entry list"
  assets :: "asset_entry list"

definition getDefaultData :: "jstring \<Rightarrow> ledger" where
  "getDefaultData now =
     \<lparr>session = \<lparr>startTime = now, budget = DEFAULT_BUDGET, budgetUsed = Finite 0\<rparr>,
      totals = \<lparr>apiCalls = Finite 0, inputTokens = Finite 0, outputTokens = Finite 0,
                imagesGenerated = Finite 0, estimatedCost = Finite 0\<rparr>,
      byModel = Map.empty,
      byEndpoint = Map.empty,
      history = [],
      assets = []\<rparr>"

record track_result =
  cost :: number
  budgetRemaining :: number
  overBudget :: bool

definition pricing_for :: "jstring \<Rightarrow> pricing" where
  \<comment> \<open>\<open>PRICING[model] || PRICING['gemini-2.0-flash']\<close>\<close>
  "pricing_for model = (case PRICING model of Some p \<Rightarrow> p | None \<Rightarrow> pricing_gemini_2_flash)"

definition call_cost :: "jstring \<Rightarrow> number \<Rightarrow> number \<Rightarrow> bool \<Rightarrow> number" where
  "call_cost model inTok outTok isImage =
     (let pricing = pricing_for model in
      if isImage then or_number (p_perImage pricing) (fl 0.02)
      else num_add
             (num_mul (num_div inTok (Finite 1000)) (or_number (p_input pricing) (fl 0.0001)))
             (num_mul (num_div outTok (Finite 1000)) (or_number (p_output pricing) (fl 0.0002))))"

definition increment :: "number \<Rightarrow> number" where
  \<comment> \<open>\<open>x++\<close>\<close>
  "increment x = num_add x (Finite 1)"

definition track ::
  "jstring \<Rightarrow> jstring \<Rightarrow> jstring \<Rightarrow> number \<Rightarrow> number \<Rightarrow> bool \<Rightarrow> jstring \<Rightarrow> ledger
     \<Rightarrow> track_result \<times> ledger" where
  "track now model endpoint inTok outTok isImage prompt d0 =
     (let c = call_cost model inTok outTok isImage;
          d1 = (if isImage
                then d0\<lparr>totals := (totals d0)
                          \<lparr>imagesGenerated := increment (imagesGenerated (totals d0))\<rparr>\<rparr>
                else d0);
          d2 = d1\<lparr>totals := (totals d1)
                 \<lparr>apiCalls := increment (apiCalls (totals d1)),
                  inputTokens := num_add (inputTokens (totals d1)) inTok,
                  outputTokens := num_add (outputTokens (totals d1)) outTok,
                  estimatedCost := num_add (estimatedCost (totals d1)) c\<rparr>,
                session := (session d1)\<lparr>budgetUsed := num_add (budgetUsed (session d1)) c\<rparr>\<rparr>;
          ms = (case byModel d2 model of
                  None \<Rightarrow> \<lparr>m_calls = Finite 0, m_inputTokens = Finite 0,
                            m_outputTokens = Finite 0, m_cost = Finite 0\<rparr>
                | Some s \<Rightarrow> s);
          d3 = d2\<lparr>byModel := (byModel d2)(model \<mapsto>
                 \<lparr>m_calls = increment (m_calls ms),
                  m_inputTokens = num_add (m_inputTokens ms) inTok,
                  m_outputTokens = num_add (m_outputTokens ms) outTok,
                  m_cost = num_add (m_cost ms) c\<rparr>)\<rparr>;
          es = (case byEndpoint d3 endpoint of
                  None \<Rightarrow> \<lparr>e_calls = Finite 0, e_cost = Finite 0\<rparr>
                | Some s \<Rightarrow> s);
          d4 = d3\<lparr>byEndpoint := (byEndpoint d3)(endpoint \<mapsto>
                 \<lparr>e_calls = increment (e_calls es), e_cost = num_add (e_cost es) c\<rparr>)\<rparr>;
          entry = \<lparr>h_timestamp = now, h_model = model, h_endpoint = endpoint,
                   h_inputTokens = inTok, h_outputTokens = outTok, h_isImage = isImage,
                   h_cost = c, h_prompt = substring0 100 prompt\<rparr>;
          d5 = d4\<lparr>history := entry # history d4\<rparr>;
          d6 = (if length (history d5) > 100 then d5\<lparr>history := take 100 (history d5)\<rparr>
                else d5)
      in (\<lparr>cost = c,
           budgetRemaining = num_sub (budget (session d6)) (budgetUsed (session d6)),
           overBudget = num_gt (budgetUsed (session d6)) (budget (session d6))\<rparr>, d6))"

record budget_check =
  allowed :: bool
  remaining :: number
  bc_estimatedCost :: number

definition checkBudget :: "number \<Rightarrow> ledger \<Rightarrow> budget_check" where
  "checkBudget estCost d =
     (let rem = num_sub (budget (session d)) (budgetUsed (session d)) in
      \<lparr>allowed = num_ge rem estCost, remaining = rem, bc_estimatedCost = estCost\<rparr>)"

definition setBudget :: "number \<Rightarrow> ledger \<Rightarrow> ledger" where
  "setBudget amount d = d\<lparr>session := (session d)\<lparr>budget := amount\<rparr>\<rparr>"

definition resetSession :: "jstring \<Rightarrow> ledger \<Rightarrow> ledger" where
  "resetSession now d = getDefaultData now"

section \<open>Response normalizer (\<open>lib/safe-parse.js\<close>)\<close>

subsection \<open>Built-in string operations\<close>

definition is_js_space :: "nat \<Rightarrow> bool" where
  \<comment> \<open>the class \<open>\s\<close> of regular expressions, which is also what \<open>trim()\<close> removes:
      TAB, LF, VT, FF, CR, space, NBSP, U+1680, U+2000 to U+200A, LS, PS, U+202F, U+205F,
      U+3000 and U+FEFF\<close>
  "is_js_space c =
     ((9 \<le> c \<and> c \<le> 13) \<or> c = 32 \<or> c = 160 \<or> c = 5760 \<or> (8192 \<le> c \<and> c \<le> 8202)
      \<or> c = 8232 \<or> c = 8233 \<or> c = 8239 \<or> c = 8287 \<or> c = 12288 \<or> c = 65279)"

definition trim :: "jstring \<Rightarrow> jstring" where
  "trim s = rev (dropWhile is_js_space (rev (dropWhile is_js_space s)))"

definition lower_ascii :: "nat \<Rightarrow> nat" where
  "lower_ascii c = (if 65 \<le> c \<and> c \<le> 90 then c + 32 else c)"

fun match_ci :: "jstring \<Rightarrow> jstring \<Rightarrow> jstring option" where
  \<comment> \<open>\<open>match_ci pat s\<close>: \<open>s\<close> starts with the lower-case ASCII literal \<open>pat\<close>, letters compared
      without case as under the \<open>i\<close> flag; the result is what follows the literal\<close>
  "match_ci [] s = Some s"
| "match_ci (p # ps) [] = None"
| "match_ci (p # ps) (c # cs) = (if lower_ascii c = p then match_ci ps cs else None)"

fun match_lit :: "jstring \<Rightarrow> jstring \<Rightarrow> jstring option" where
  \<comment> \<open>\<open>match_lit pat s\<close>: \<open>s\<close> starts with the literal \<open>pat\<close>; the result is what follows it\<close>
  "match_lit [] s = Some s"
| "match_lit (p # ps) [] = None"
| "match_lit (p # ps) (c # cs) = (if c = p then match_lit ps cs else None)"

lemma match_ci_length: "match_ci pat s = Some r \<Longrightarrow> length r + length pat = length s"
  by (induction pat s rule: match_ci.induct) (auto split: if_splits)

lemma match_lit_length: "match_lit pat s = Some r \<Longrightarrow> length r + length pat = length s"
  by (induction pat s rule: match_lit.induct) (auto split: if_splits)

text \<open>
  \<open>text.replace(/```json\s*/gi, "")\<close>: scanning from the left, every match (the fence, the
  word in any case, and all the white space after it) is removed, and the scan goes on
  behind the match.
\<close>

function strip_json_fences :: "jstring \<Rightarrow> jstring" where
  "strip_json_fences [] = []"
| "strip_json_fences (c # cs) =
     (case match_ci (js ''```json'') (c # cs) of
        Some r \<Rightarrow> strip_json_fences (dropWhile is_js_space r)
      | None \<Rightarrow> c # strip_json_fences cs)"
  by pat_completeness auto
termination
proof (relation "measure length", goal_cases)
  case 1
  show ?case by simp
next
  case (2 c cs)
  show ?case by simp
next
  case (3 c cs r)
  from match_ci_length [OF 3] have "length r < length (c # cs)"
    by (simp add: js_def)
  moreover have "length (dropWhile is_js_space r) \<le> length r"
    by (rule length_dropWhile_le)
  ultimately show ?case by simp
qed

text \<open>\<open>.replace(/```\s*/g, "")\<close>, in the same way.\<close>

function strip_fences :: "jstring \<Rightarrow> jstring" where
  "strip_fences [] = []"
| "strip_fences (c # cs) =
     (case match_lit (js ''```'') (c # cs) of
        Some r \<Rightarrow> strip_fences (dropWhile is_js_space r)
      | None \<Rightarrow> c # strip_fences cs)"
  by pat_completeness auto
termination
proof (relation "measure length", goal_cases)
  case 1
  show ?case by simp
next
  case (2 c cs)
  show ?case by simp
next
  case (3 c cs r)
  from match_lit_length [OF 3] have "length r < length (c # cs)"
    by (simp add: js_def)
  moreover have "length (dropWhile is_js_space r) \<le> length r"
    by (rule length_dropWhile_le)
  ultimately show ?case by simp
qed

function decimal :: "nat \<Rightarrow> jstring" where
  \<comment> \<open>the decimal digits of a non-negative integer, as a template literal renders it\<close>
  "decimal n = (if n < 10 then [48 + n] else decimal (n div 10) @ [48 + n mod 10])"
  by pat_completeness auto
termination
  by (relation "measure id") auto

subsection \<open>Property reads and \<open>||\<close>\<close>

fun field :: "json \<Rightarrow> jstring \<Rightarrow> json option" where
  \<comment> \<open>\<open>v.k\<close> for a value \<open>v\<close> other than null and a name \<open>k\<close> that no prototype defines: an
      own property of an object, undefined otherwise\<close>
  "field (JObj kvs) k = map_of kvs k"
| "field v k = None"

definition get_prop :: "json \<Rightarrow> jstring \<Rightarrow> js_error + json option" where
  \<comment> \<open>\<open>v.k\<close>; reading a property of null throws a TypeError\<close>
  "get_prop v k = (if v = JNull then Inl TypeError else Inr (field v k))"

definition or_else :: "json option \<Rightarrow> json \<Rightarrow> json" where
  \<comment> \<open>\<open>x || d\<close>\<close>
  "or_else x d = (case x of None \<Rightarrow> d | Some v \<Rightarrow> if truthy v then v else d)"

definition is_boolean :: "json option \<Rightarrow> bool" where
  \<comment> \<open>\<open>typeof x === "boolean"\<close>\<close>
  "is_boolean x = (case x of Some (JBool b) \<Rightarrow> True | _ \<Rightarrow> False)"

definition is_array :: "json option \<Rightarrow> bool" where
  \<comment> \<open>\<open>Array.isArray(x)\<close>\<close>
  "is_array x = (case x of Some (JArr xs) \<Rightarrow> True | _ \<Rightarrow> False)"

definition is_string :: "json option \<Rightarrow> bool" where
  \<comment> \<open>\<open>typeof x === "string"\<close>\<close>
  "is_string x = (case x of Some (JStr s) \<Rightarrow> True | _ \<Rightarrow> False)"

subsection \<open>\<open>parseInspectorResponse\<close>\<close>

text \<open>
  A \<open>try { ... } catch (e) { ... }\<close> block: the body either throws (\<open>Inl\<close>) or yields a
  value; the handler runs on what was thrown and may itself throw.
\<close>

definition try_catch :: "js_error + 'a \<Rightarrow> (js_error \<Rightarrow> js_error + 'a) \<Rightarrow> js_error + 'a" where
  "try_catch body handler = (case body of Inl e \<Rightarrow> handler e | Inr v \<Rightarrow> Inr v)"

definition defect_id :: "nat \<Rightarrow> json" where
  \<comment> \<open>the template \<open>defect-${index + 1}\<close>\<close>
  "defect_id index = JStr (js ''defect-'' @ decimal (index + 1))"

definition normalize_defect :: "json \<Rightarrow> nat \<Rightarrow> js_error + json" where
  \<comment> \<open>the callback of \<open>parsed.visual_defects.map\<close>\<close>
  "normalize_defect defect index =
     (if is_string (Some defect) then
        Inr (JObj
          [(js ''id'', defect_id index),
           (js ''element'', JStr (js ''unknown'')),
           (js ''element_text'', JNull),
           (js ''selector_hint'', JStr (js ''*'')),
           (js ''issue'', defect),
           (js ''expected'', JNull),
           (js ''why'', JNull)])
      else
        (case get_prop defect (js ''id'') of
           Inl e \<Rightarrow> Inl e
         | Inr d_id \<Rightarrow>
             Inr (JObj
               [(js ''id'', or_else d_id (defect_id index)),
                (js ''element'', or_else (field defect (js ''element'')) (JStr (js ''unknown''))),
                (js ''element_text'', or_else (field defect (js ''element_text'')) JNull),
                (js ''selector_hint'', or_else (field defect (js ''selector_hint'')) (JStr (js ''*''))),
                (js ''issue'',
                   or_else (field defect (js ''issue''))
                     (or_else (field defect (js ''description'')) (JStr (js ''Unknown issue'')))),
                (js ''expected'', or_else (field defect (js ''expected'')) JNull),
                (js ''why'', or_else (field defect (js ''why'')) JNull)])))"

fun normalize_defects :: "json list \<Rightarrow> nat \<Rightarrow> js_error + json list" where
  \<comment> \<open>\<open>Array.prototype.map\<close> with the callback above, from index \<open>i\<close> on; a callback that
      throws ends the map\<close>
  "normalize_defects [] i = Inr []"
| "normalize_defects (d # ds) i =
     (case normalize_defect d i of
        Inl e \<Rightarrow> Inl e
      | Inr nd \<Rightarrow>
          (case normalize_defects ds (i + 1) of
             Inl e \<Rightarrow> Inl e
           | Inr nds \<Rightarrow> Inr (nd # nds)))"

definition PARSE_ERROR_ISSUE :: jstring where
  \<comment> \<open>U+26A0 U+FE0F, `` Parse error '', U+2014, `` manual review required''\<close>
  "PARSE_ERROR_ISSUE = [9888, 65039] @ js '' Parse error '' @ [8212] @ js '' manual review required''"

definition fallback_report :: json where
  "fallback_report =
     JObj
       [(js ''looks_good'', JBool False),
        (js ''visual_defects'',
           JArr [JObj
             [(js ''id'', JStr (js ''defect-parse-error'')),
              (js ''element'', JStr (js ''unknown'')),
              (js ''element_text'', JNull),
              (js ''selector_hint'', JStr (js ''*'')),
              (js ''issue'', JStr PARSE_ERROR_ISSUE),
              (js ''expected'', JNull),
              (js ''why'', JNull)]]),
        (js ''needs_asset_generation'', JBool False),
        (js ''asset_generation_prompt'', JNull)]"

definition clean_response :: "jstring \<Rightarrow> jstring" where
  "clean_response text = trim (strip_fences (strip_json_fences text))"

definition validate_report :: "json \<Rightarrow> js_error + unit" where
  \<comment> \<open>the three checks of the required top-level fields, in the order of the source\<close>
  "validate_report parsed =
     (case get_prop parsed (js ''looks_good'') of
        Inl e \<Rightarrow> Inl e
      | Inr looks_good \<Rightarrow>
          if \<not> is_boolean looks_good
          then Inl (Error (js ''Missing or invalid 'looks_good' field (expected boolean)''))
          else if \<not> is_array (field parsed (js ''visual_defects''))
          then Inl (Error (js ''Missing or invalid 'visual_defects' field (expected array)''))
          else if \<not> is_boolean (field parsed (js ''needs_asset_generation''))
          then Inl (Error (js ''Missing or invalid 'needs_asset_generation' field (expected boolean)''))
          else Inr ())"

definition elements :: "json option \<Rightarrow> json list" where
  \<comment> \<open>the elements of a value that \<open>Array.isArray\<close> accepted\<close>
  "elements x = (case x of Some (JArr xs) \<Rightarrow> xs | _ \<Rightarrow> [])"

definition value_of :: "json option \<Rightarrow> json" where
  \<comment> \<open>a property value that a \<open>typeof\<close> check found defined\<close>
  "value_of x = (case x of Some v \<Rightarrow> v | None \<Rightarrow> JNull)"

record inspector_result =
  i_success :: bool
  i_error :: "js_error option"
  i_data :: json

text \<open>
  \<open>JSON.parse\<close> is a built-in; it is the parameter \<open>JSON_parse\<close>, with \<open>None\<close> for a thrown
  SyntaxError. The handler's \<open>console.error\<close> calls print and return.
\<close>

definition parseInspectorResponse ::
  "(jstring \<Rightarrow> json option) \<Rightarrow> jstring \<Rightarrow> js_error + inspector_result" where
  "parseInspectorResponse JSON_parse text =
     try_catch
       (case JSON_parse (clean_response text) of
          None \<Rightarrow> Inl SyntaxError
        | Some parsed \<Rightarrow>
            (case validate_report parsed of
               Inl e \<Rightarrow> Inl e
             | Inr u \<Rightarrow>
                 (case normalize_defects (elements (field parsed (js ''visual_defects''))) 0 of
                    Inl e \<Rightarrow> Inl e
                  | Inr normalizedDefects \<Rightarrow>
                      Inr \<lparr>i_success = True, i_error = None,
                           i_data = JObj
                             [(js ''looks_good'', value_of (field parsed (js ''looks_good''))),
                              (js ''visual_defects'', JArr normalizedDefects),
                              (js ''needs_asset_generation'',
                                 value_of (field parsed (js ''needs_asset_generation''))),
                              (js ''asset_generation_prompt'',
                                 or_else (field parsed (js ''asset_generation_prompt'')) JNull)]\<rparr>)))
       (\<lambda>e. Inr \<lparr>i_success = False, i_error = Some e, i_data = fallback_report\<rparr>)"

subsection \<open>\<open>parseSurgeonResponse\<close>\<close>

text \<open>
  \<open>code.match(/```(?:jsx?|tsx?|javascript|typescript)?\s*([\s\S]*?)```/)\<close>. A match starts
  at a fence, takes the longest language tag and all white space that follow (neither
  contains a backquote, so giving some of them back never lets a closing fence be found
  that was not found before), and captures up to the first fence behind that. If the first
  fence of the text has no fence behind it, no later start has one either. So: the match
  exists when a second fence follows the first, and group 1 is the text between the white
  space behind the tag and that second fence.
\<close>

fun find_fence :: "jstring \<Rightarrow> (jstring \<times> jstring) option" where
  \<comment> \<open>the text before and the text behind the first fence\<close>
  "find_fence (a # b # c # rest) =
     (if a = 96 \<and> b = 96 \<and> c = 96 then Some ([], rest)
      else (case find_fence (b # c # rest) of
              None \<Rightarrow> None
            | Some (before, after) \<Rightarrow> Some (a # before, after)))"
| "find_fence s = None"

definition strip_language_tag :: "jstring \<Rightarrow> jstring" where
  \<comment> \<open>\<open>(?:jsx?|tsx?|javascript|typescript)?\<close>: the alternatives in order, each greedy\<close>
  "strip_language_tag s =
     (case match_lit (js ''jsx'') s of Some r \<Rightarrow> r | None \<Rightarrow>
      case match_lit (js ''js'') s of Some r \<Rightarrow> r | None \<Rightarrow>
      case match_lit (js ''tsx'') s of Some r \<Rightarrow> r | None \<Rightarrow>
      case match_lit (js ''ts'') s of Some r \<Rightarrow> r | None \<Rightarrow>
      case match_lit (js ''javascript'') s of Some r \<Rightarrow> r | None \<Rightarrow>
      case match_lit (js ''typescript'') s of Some r \<Rightarrow> r | None \<Rightarrow> s)"

definition codeBlockMatch :: "jstring \<Rightarrow> jstring option" where
  \<comment> \<open>group 1 of the match, \<open>None\<close> when \<open>match\<close> returns null\<close>
  "codeBlockMatch code =
     (case find_fence code of
        None \<Rightarrow> None
      | Some (before, after) \<Rightarrow>
          (case find_fence (dropWhile is_js_space (strip_language_tag after)) of
             None \<Rightarrow> None
           | Some (captured, rest) \<Rightarrow> Some captured))"

record surgeon_result =
  s_success :: bool
  s_code :: "jstring option"
  s_error :: "js_error option"

definition parseSurgeonResponse :: "jstring \<Rightarrow> js_error + surgeon_result" where
  "parseSurgeonResponse text =
     try_catch
       (let code0 = trim text;
            code = (case codeBlockMatch code0 of Some captured \<Rightarrow> trim captured | None \<Rightarrow> code0)
        in if length code < 10
           then Inl (Error (js ''Response too short to be valid code''))
           else Inr \<lparr>s_success = True, s_code = Some code, s_error = None\<rparr>)
       (\<lambda>e. Inr \<lparr>s_success = False, s_code = None, s_error = Some e\<rparr>)"

subsection \<open>A reader for JSON texts\<close>

text \<open>
  Where a property below is evaluated at a concrete response text, \<open>JSON.parse\<close> is
  instantiated by this reader of the JSON grammar: white space (space, TAB, LF, CR),
  the three literals, numbers, strings with their escapes, arrays and objects; a later
  duplicate of a key replaces the value of the earlier one. \<open>None\<close> is the SyntaxError.
  The recursion carries a depth bound of twice the length of the text plus two.
\<close>

definition is_json_ws :: "nat \<Rightarrow> bool" where
  "is_json_ws c = (c = 32 \<or> c = 9 \<or> c = 10 \<or> c = 13)"

definition skip_ws :: "jstring \<Rightarrow> jstring" where
  "skip_ws s = dropWhile is_json_ws s"

definition is_digit :: "nat \<Rightarrow> bool" where
  "is_digit c = (48 \<le> c \<and> c \<le> 57)"

definition hex_digit :: "nat \<Rightarrow> nat option" where
  "hex_digit c =
     (if 48 \<le> c \<and> c \<le> 57 then Some (c - 48)
      else if 97 \<le> c \<and> c \<le> 102 then Some (c - 87)
      else if 65 \<le> c \<and> c \<le> 70 then Some (c - 55)
      else None)"

definition escape_char :: "nat \<Rightarrow> nat option" where
  \<comment> \<open>the character behind a backslash: quote, backslash, slash, b, f, n, r, t\<close>
  "escape_char e =
     (if e = 34 \<or> e = 92 \<or> e = 47 then Some e
      else if e = 98 then Some 8
      else if e = 102 then Some 12
      else if e = 110 then Some 10
      else if e = 114 then Some 13
      else if e = 116 then Some 9
      else None)"

definition prepend :: "nat \<Rightarrow> (jstring \<times> jstring) option \<Rightarrow> (jstring \<times> jstring) option" where
  "prepend x res = (case res of None \<Rightarrow> None | Some (s, r) \<Rightarrow> Some (x # s, r))"

fun read_string :: "jstring \<Rightarrow> (jstring \<times> jstring) option" where
  \<comment> \<open>behind the opening quote: the string and what follows its closing quote\<close>
  "read_string [] = None"
| "read_string (c # cs) =
     (if c = 34 then Some ([], cs)
      else if c < 32 then None
      else if c = 92 then
        (case cs of
           [] \<Rightarrow> None
         | e # r \<Rightarrow>
             if e = 117 then
               (case r of
                  h1 # h2 # h3 # h4 # r' \<Rightarrow>
                    (case (hex_digit h1, hex_digit h2, hex_digit h3, hex_digit h4) of
                       (Some a, Some b, Some c', Some d) \<Rightarrow>
                         prepend (((a * 16 + b) * 16 + c') * 16 + d) (read_string r')
                     | _ \<Rightarrow> None)
                | _ \<Rightarrow> None)
             else (case escape_char e of
                     None \<Rightarrow> None
                   | Some x \<Rightarrow> prepend x (read_string r)))
      else prepend c (read_string cs))"

definition digits_value :: "jstring \<Rightarrow> nat" where
  "digits_value ds = foldl (\<lambda>a c. 10 * a + (c - 48)) 0 ds"

definition read_number :: "jstring \<Rightarrow> (number \<times> jstring) option" where
  \<comment> \<open>\<open>-? (0 | [1-9][0-9]*) (. [0-9]+)? ([eE] [+-]? [0-9]+)?\<close>, read as the double
      nearest to the decimal value\<close>
  "read_number s =
     (let neg = (case s of [] \<Rightarrow> False | c # r \<Rightarrow> c = 45);
          s1 = (if neg then tl s else s);
          ip = (case s1 of [] \<Rightarrow> [] | c # r \<Rightarrow> if c = 48 then [c] else takeWhile is_digit s1);
          s2 = drop (length ip) s1;
          hasFrac = (case s2 of [] \<Rightarrow> False | c # r \<Rightarrow> c = 46);
          fp = (if hasFrac then takeWhile is_digit (tl s2) else []);
          s3 = (if hasFrac then drop (length fp) (tl s2) else s2);
          hasExp = (case s3 of [] \<Rightarrow> False | c # r \<Rightarrow> c = 101 \<or> c = 69);
          s4 = tl s3;
          expNeg = (case s4 of [] \<Rightarrow> False | c # r \<Rightarrow> c = 45);
          s5 = (case s4 of [] \<Rightarrow> [] | c # r \<Rightarrow> if c = 45 \<or> c = 43 then r else s4);
          ep = (if hasExp then takeWhile is_digit s5 else []);
          s6 = (if hasExp then drop (length ep) s5 else s3);
          mant = of_nat (digits_value ip) + of_nat (digits_value fp) / 10 ^ length fp;
          scaled = (if expNeg then mant / 10 ^ digits_value ep else mant * 10 ^ digits_value ep)
      in if ip = [] \<or> (hasFrac \<and> fp = []) \<or> (hasExp \<and> ep = []) then None
         else Some (fl (if neg then - scaled else scaled), s6))"

fun put :: "jstring \<Rightarrow> json \<Rightarrow> (jstring \<times> json) list \<Rightarrow> (jstring \<times> json) list" where
  "put k v [] = [(k, v)]"
| "put k v ((k', v') # kvs) = (if k' = k then (k, v) # kvs else (k', v') # put k v kvs)"

fun read_value :: "nat \<Rightarrow> jstring \<Rightarrow> (json \<times> jstring) option"
  and read_elements :: "nat \<Rightarrow> jstring \<Rightarrow> (json list \<times> jstring) option"
  and read_members :: "nat \<Rightarrow> jstring \<Rightarrow> ((jstring \<times> json) list \<times> jstring) option" where
  "read_value 0 s = None"
| "read_value (Suc n) s =
     (case skip_ws s of
        [] \<Rightarrow> None
      | c # r \<Rightarrow>
          if c = 34 then
            (case read_string r of None \<Rightarrow> None | Some (str, r') \<Rightarrow> Some (JStr str, r'))
          else if c = 91 then
            (case skip_ws r of
               [] \<Rightarrow> None
             | c' # r' \<Rightarrow>
                 if c' = 93 then Some (JArr [], r')
                 else (case read_elements n (c' # r') of
                         None \<Rightarrow> None
                       | Some (vs, r'') \<Rightarrow> Some (JArr vs, r'')))
          else if c = 123 then
            (case skip_ws r of
               [] \<Rightarrow> None
             | c' # r' \<Rightarrow>
                 if c' = 125 then Some (JObj [], r')
                 else (case read_members n (c' # r') of
                         None \<Rightarrow> None
                       | Some (kvs, r'') \<Rightarrow>
                           Some (JObj (foldl (\<lambda>acc kv. put (fst kv) (snd kv) acc) [] kvs), r'')))
          else if c = 45 \<or> is_digit c then
            (case read_number (c # r) of None \<Rightarrow> None | Some (q, r') \<Rightarrow> Some (JNum q, r'))
          else
            (case match_lit (js ''true'') (c # r) of Some r' \<Rightarrow> Some (JBool True, r') | None \<Rightarrow>
             case match_lit (js ''false'') (c # r) of Some r' \<Rightarrow> Some (JBool False, r') | None \<Rightarrow>
             case match_lit (js ''null'') (c # r) of Some r' \<Rightarrow> Some (JNull, r') | None \<Rightarrow> None))"
| "read_elements 0 s = None"
| "read_elements (Suc n) s =
     (case read_value n s of
        None \<Rightarrow> None
      | Some (v, r) \<Rightarrow>
          (case skip_ws r of
             [] \<Rightarrow> None
           | c # r' \<Rightarrow>
               if c = 93 then Some ([v], r')
               else if c = 44 then
                 (case read_elements n r' of
                    None \<Rightarrow> None
                  | Some (vs, r'') \<Rightarrow> Some (v # vs, r''))
               else None))"
| "read_members 0 s = None"
| "read_members (Suc n) s =
     (case skip_ws s of
        [] \<Rightarrow> None
      | c # r \<Rightarrow>
          if c \<noteq> 34 then None
          else
            (case read_string r of
               None \<Rightarrow> None
             | Some (k, r1) \<Rightarrow>
                 (case skip_ws r1 of
                    [] \<Rightarrow> None
                  | c1 # r2 \<Rightarrow>
                      if c1 \<noteq> 58 then None
                      else
                        (case read_value n r2 of
                           None \<Rightarrow> None
                         | Some (v, r3) \<Rightarrow>
                             (case skip_ws r3 of
                                [] \<Rightarrow> None
                              | c2 # r4 \<Rightarrow>
                                  if c2 = 125 then Some ([(k, v)], r4)
                                  else if c2 = 44 then
                                    (case read_members n r4 of
                                       None \<Rightarrow> None
                                     | Some (kvs, r5) \<Rightarrow> Some ((k, v) # kvs, r5))
                                  else None)))))"

definition JSON_parse :: "jstring \<Rightarrow> json option" where
  "JSON_parse text =
     (case read_value (2 * length text + 2) text of
        None \<Rightarrow> None
      | Some (v, r) \<Rightarrow> if skip_ws r = [] then Some v else None)"

subsection \<open>The shape of a defect report\<close>

definition DefectReport_shape :: "json \<Rightarrow> bool" where
  \<comment> \<open>the shape as the specification words it: \<open>looks_good\<close> a boolean, \<open>visual_defects\<close> an
      array, \<open>needs_asset_generation\<close> a boolean, \<open>asset_generation_prompt\<close> a string or null\<close>
  "DefectReport_shape d \<longleftrightarrow>
     is_boolean (field d (js ''looks_good'')) \<and>
     is_array (field d (js ''visual_defects'')) \<and>
     is_boolean (field d (js ''needs_asset_generation'')) \<and>
     (is_string (field d (js ''asset_generation_prompt''))
      \<or> field d (js ''asset_generation_prompt'') = Some JNull)"

definition absent_or_falsy :: "json option \<Rightarrow> bool" where
  \<comment> \<open>the left operand of \<open>||\<close> gives way to the right one\<close>
  "absent_or_falsy x = (case x of None \<Rightarrow> True | Some v \<Rightarrow> \<not> truthy v)"

definition DefectReport_shape_any_prompt :: "json \<Rightarrow> bool" where
  \<comment> \<open>the same shape, with \<open>asset_generation_prompt\<close> null or any truthy value\<close>
  "DefectReport_shape_any_prompt d \<longleftrightarrow>
     is_boolean (field d (js ''looks_good'')) \<and>
     is_array (field d (js ''visual_defects'')) \<and>
     is_boolean (field d (js ''needs_asset_generation'')) \<and>
     (field d (js ''asset_generation_prompt'') = Some JNull
      \<or> (field d (js ''asset_generation_prompt'') \<noteq> None
          \<and> \<not> absent_or_falsy (field d (js ''asset_generation_prompt''))))"

text \<open>Response texts used below.\<close>

definition response_numeric_prompt :: jstring where
  \<open>response_numeric_prompt =
     js ''{"looks_good":true,"visual_defects":[],"needs_asset_generation":false,"asset_generation_prompt":5}''\<close>

definition response_with_prompt :: jstring where
  \<open>response_with_prompt =
     js ''{"looks_good":false,"visual_defects":[],"needs_asset_generation":true,"asset_generation_prompt":"avatar"}''\<close>

definition response_wrong_type :: jstring where
  \<open>response_wrong_type = js ''```json'' @ [10] @ js ''{"looks_good":"yes"}'' @ [10] @ js ''```''\<close>

definition response_description_only :: jstring where
  \<open>response_description_only =
     js ''{"looks_good":false,"visual_defects":[{"description":"Low contrast"}],"needs_asset_generation":false}''\<close>

section \<open>Budget gate of \<open>POST /api/generate-asset\<close> (\<open>server.js\<close>)\<close>

text \<open>
  The request body \<open>req.body\<close> is any JSON value. The handler documents it as
  \<open>{ prompt: string, context?: string, theme?: string }\<close>, but it reads whatever arrives:
  destructuring null throws, \<open>prompt.substring\<close> throws for a truthy prompt that is not
  a string, and the template literal that logs \<open>context\<close> and \<open>theme\<close> throws for a value
  that cannot be converted to a string; the \<open>catch\<close> block answers each with 500.
  \<open>generateUIAsset\<close> is the only model call of the handler; it is the parameter \<open>artist\<close>
  (prompt, context, theme to a reply), and the handler returns how often it called it.
  \<open>toFixed(4)\<close> renderings of amounts are kept as the amounts.
\<close>

fun to_string_throws :: "json \<Rightarrow> bool" where
  \<comment> \<open>\<open>`${v}`\<close> throws a TypeError: an object with an own \<open>toString\<close> property (never
      callable in a JSON value), or an array that has such an element\<close>
  "to_string_throws (JObj kvs) = (js ''toString'' \<in> set (map fst kvs))"
| "to_string_throws (JArr xs) = (\<exists>x \<in> set xs. to_string_throws x)"
| "to_string_throws v = False"

record asset_image =
  base64 :: "jstring option"
  url :: "jstring option"
  mimeType :: "jstring option"

datatype asset_reply =
    AssetThrew js_error
  | AssetFailure jstring
  | AssetSuccess asset_image

datatype asset_body =
    MissingPrompt
  | BudgetExceeded number
  | AssetGenerated asset_image number number
  | AssetError jstring
  | CaughtError js_error

record asset_response =
  resp_status :: nat
  resp_body :: asset_body

definition generate_asset_handler ::
  "(jstring \<Rightarrow> json \<Rightarrow> json \<Rightarrow> asset_reply) \<Rightarrow> jstring \<Rightarrow> json \<Rightarrow> ledger
     \<Rightarrow> asset_response \<times> ledger \<times> nat" where
  "generate_asset_handler artist now reqBody d =
     (case get_prop reqBody (js ''prompt'') of
        Inl e \<Rightarrow> (\<lparr>resp_status = 500, resp_body = CaughtError e\<rparr>, d, 0)
      | Inr prompt \<Rightarrow>
          (let ctx = (case field reqBody (js ''context'') of
                        None \<Rightarrow> JStr (js ''general'') | Some c \<Rightarrow> c);
               thme = (case field reqBody (js ''theme'') of
                         None \<Rightarrow> JStr (js ''dark'') | Some t \<Rightarrow> t)
           in if absent_or_falsy prompt
              then (\<lparr>resp_status = 400, resp_body = MissingPrompt\<rparr>, d, 0)
              else
                (case prompt of
                   Some (JStr p) \<Rightarrow>
                     if to_string_throws ctx \<or> to_string_throws thme
                     then (\<lparr>resp_status = 500, resp_body = CaughtError TypeError\<rparr>, d, 0)
                     else
                       let budgetCheck = checkBudget (fl 0.02) d in
                       if \<not> allowed budgetCheck
                       then (\<lparr>resp_status = 402,
                               resp_body = BudgetExceeded (remaining budgetCheck)\<rparr>, d, 0)
                       else
                         (case artist p ctx thme of
                            AssetThrew e \<Rightarrow>
                              (\<lparr>resp_status = 500, resp_body = CaughtError e\<rparr>, d, 1)
                          | AssetFailure msg \<Rightarrow>
                              (\<lparr>resp_status = 500, resp_body = AssetError msg\<rparr>, d, 1)
                          | AssetSuccess img \<Rightarrow>
                              (let (usage, d') =
                                     track now (js ''gemini-2.0-flash-preview-image-generation'')
                                       (js ''/api/generate-asset'') (Finite 0) (Finite 0) True p d
                               in (\<lparr>resp_status = 200,
                                     resp_body = AssetGenerated img (cost usage)
                                                   (budgetRemaining usage)\<rparr>,
                                   d', 1)))
                 | _ \<Rightarrow> (\<lparr>resp_status = 500, resp_body = CaughtError TypeError\<rparr>, d, 0))))"

text \<open>Concrete inputs used below.\<close>

definition ledger_cent :: ledger where
  \<comment> \<open>a fresh ledger whose budget was set to 0.01\<close>
  "ledger_cent = setBudget (fl 0.01) (getDefaultData (js ''2025-01-01T00:00:00.000Z''))"

definition artist_ok :: "jstring \<Rightarrow> json \<Rightarrow> json \<Rightarrow> asset_reply" where
  "artist_ok p c t =
     AssetSuccess \<lparr>base64 = Some (js ''AAAA''), url = None, mimeType = Some (js ''image/png'')\<rparr>"

definition request_avatar :: json where
  "request_avatar = JObj [(js ''prompt'', JStr (js ''avatar''))]"

definition track_image :: "ledger \<Rightarrow> ledger" where
  \<comment> \<open>the ledger after one tracked image generation\<close>
  "track_image d =
     snd (track (js ''2025-01-01T00:00:01.000Z'') (js ''gemini-2.0-flash-preview-image-generation'')
            (js ''/api/generate-asset'') (Finite 0) (Finite 0) True (js ''avatar'') d)"

definition track_analysis :: "ledger \<Rightarrow> ledger" where
  \<comment> \<open>the ledger after one tracked call of 1000 input and 500 output tokens\<close>
  "track_analysis d =
     snd (track (js ''2025-01-01T00:00:01.000Z'') (js ''gemini-3-pro-preview'')
            (js ''/api/analyze'') (Finite 1000) (Finite 500) False (js ''analyze'') d)"

definition ledger_after_eight :: ledger where
  \<comment> \<open>a fresh ledger after eight tracked calls of 1000 input and 500 output tokens\<close>
  "ledger_after_eight =
     track_analysis (track_analysis (track_analysis (track_analysis
       (track_analysis (track_analysis (track_analysis (track_analysis
         (getDefaultData (js ''2025-01-01T00:00:00.000Z'')))))))))"

definition ledger_many_images :: ledger where
  \<comment> \<open>a ledger, as loaded from \<open>usage-data.json\<close>, that counts \<open>2^53\<close> images\<close>
  "ledger_many_images =
     (getDefaultData (js ''2025-01-01T00:00:00.000Z''))
       \<lparr>totals := (totals (getDefaultData (js ''2025-01-01T00:00:00.000Z'')))
          \<lparr>imagesGenerated := Finite 9007199254740992\<rparr>\<rparr>"

section \<open>Merging local and remote defects (\<open>mergeDefects\<close>)\<close>

text \<open>
  \<open>String.prototype.toLowerCase\<close> is a built-in on all of Unicode; it is the parameter
  \<open>toLowerCase\<close>. The defects are JavaScript values; a defect of the remote list may be a
  bare string. The keys of the set \<open>localIssues\<close> are strings or undefined.
\<close>

definition issue_key :: "(jstring \<Rightarrow> jstring) \<Rightarrow> json option \<Rightarrow> js_error + jstring option" where
  \<comment> \<open>\<open>x?.toLowerCase().substring(0, 30)\<close>: undefined for a null or undefined \<open>x\<close>, a
      TypeError for any other value that is not a string\<close>
  "issue_key toLowerCase x =
     (case x of
        None \<Rightarrow> Inr None
      | Some JNull \<Rightarrow> Inr None
      | Some (JStr s) \<Rightarrow> Inr (Some (substring0 30 (toLowerCase s)))
      | Some v \<Rightarrow> Inl TypeError)"

definition local_key :: "(jstring \<Rightarrow> jstring) \<Rightarrow> json \<Rightarrow> js_error + jstring option" where
  \<comment> \<open>\<open>d.issue?.toLowerCase().substring(0, 30)\<close>\<close>
  "local_key toLowerCase d =
     (case get_prop d (js ''issue'') of
        Inl e \<Rightarrow> Inl e
      | Inr x \<Rightarrow> issue_key toLowerCase x)"

definition api_key :: "(jstring \<Rightarrow> jstring) \<Rightarrow> json \<Rightarrow> js_error + jstring option" where
  \<comment> \<open>\<open>(typeof apiDefect === 'string' ? apiDefect : apiDefect.issue)?.toLowerCase().substring(0, 30)\<close>\<close>
  "api_key toLowerCase apiDefect =
     (if is_string (Some apiDefect) then issue_key toLowerCase (Some apiDefect)
      else (case get_prop apiDefect (js ''issue'') of
              Inl e \<Rightarrow> Inl e
            | Inr x \<Rightarrow> issue_key toLowerCase x))"

fun local_keys :: "(jstring \<Rightarrow> jstring) \<Rightarrow> json list \<Rightarrow> js_error + jstring option list" where
  \<comment> \<open>\<open>local.map(d => ...)\<close>, the elements of the set \<open>localIssues\<close>\<close>
  "local_keys toLowerCase [] = Inr []"
| "local_keys toLowerCase (d # ds) =
     (case local_key toLowerCase d of
        Inl e \<Rightarrow> Inl e
      | Inr k \<Rightarrow>
          (case local_keys toLowerCase ds of
             Inl e \<Rightarrow> Inl e
           | Inr ks \<Rightarrow> Inr (k # ks)))"

fun push_new :: "(jstring \<Rightarrow> jstring) \<Rightarrow> jstring option list \<Rightarrow> json list \<Rightarrow> json list
    \<Rightarrow> js_error + json list" where
  \<comment> \<open>the \<open>api.forEach\<close> loop over the remaining remote defects, \<open>merged\<close> being the array
      built so far\<close>
  "push_new toLowerCase localIssues [] merged = Inr merged"
| "push_new toLowerCase localIssues (apiDefect # rest) merged =
     (case api_key toLowerCase apiDefect of
        Inl e \<Rightarrow> Inl e
      | Inr issueKey \<Rightarrow>
          push_new toLowerCase localIssues rest
            (if issueKey \<notin> set localIssues then merged @ [apiDefect] else merged))"

definition mergeDefects :: "(jstring \<Rightarrow> jstring) \<Rightarrow> json list \<Rightarrow> json list \<Rightarrow> js_error + json list" where
  "mergeDefects toLowerCase local api =
     (case local_keys toLowerCase local of
        Inl e \<Rightarrow> Inl e
      | Inr localIssues \<Rightarrow> push_new toLowerCase localIssues api local)"

definition has_issue_string :: "json \<Rightarrow> bool" where
  \<comment> \<open>a defect whose \<open>issue\<close> is a string\<close>
  "has_issue_string d = is_string (field d (js ''issue''))"

definition issue_prefix :: "(jstring \<Rightarrow> jstring) \<Rightarrow> json \<Rightarrow> jstring" where
  \<comment> \<open>the first 30 code units of the lower-cased issue text of such a defect\<close>
  "issue_prefix toLowerCase d =
     (case field d (js ''issue'') of Some (JStr s) \<Rightarrow> take 30 (toLowerCase s) | _ \<Rightarrow> [])"

definition ascii_toLowerCase :: "jstring \<Rightarrow> jstring" where
  \<comment> \<open>\<open>toLowerCase\<close> on ASCII texts\<close>
  "ascii_toLowerCase s = map lower_ascii s"

definition defect_with_issue :: "string \<Rightarrow> json" where
  "defect_with_issue s = JObj [(js ''id'', JStr (js ''defect-1'')), (js ''issue'', JStr (js s))]"

section \<open>Heal orchestrator (\<open>runFlowState\<close> of \<open>orchestrator.js\<close>)\<close>

text \<open>
  A file path is modelled by what \<open>path.dirname\<close>, \<open>path.basename(p, ext)\<close> and
  \<open>path.extname\<close> return for it; \<open>path.join(dir, base + ".flowstate-preview" + ext)\<close> is
  then the path with the suffixed base name. The file system is a map from paths to
  contents: \<open>readFileSync\<close> throws where the map is undefined, and \<open>writeFileSync\<close> is taken
  to succeed.

  The two agents \<open>inspect\<close> and \<open>operateOnCode\<close> call the model over the network; they are
  parameters. Each takes the number of calls made to it before (so that a scripted
  service can answer differently from call to call) and its arguments, and either throws
  or returns its \<open>{success, data | code, error}\<close> object: a failure with its error
  message, or a success with a defect report, respectively the patched code. The
  environment counts the calls. Console output is not modelled, and the texts of
  \<open>summary\<close> are kept as their templates with the interpolated values.
\<close>

record path =
  dirname :: jstring
  basename :: jstring
  extname :: jstring

definition preview_path :: "path \<Rightarrow> path" where
  "preview_path p = p\<lparr>basename := basename p @ js ''.flowstate-preview''\<rparr>"

record report =
  looks_good :: bool
  visual_defects :: "json list"
  needs_asset_generation :: bool
  asset_generation_prompt :: json

datatype inspection_reply =
    InspectionFailed jstring
  | Inspected report

datatype surgery_reply =
    SurgeryFailed jstring
  | Patched jstring

record services =
  inspect :: "nat \<Rightarrow> jstring \<Rightarrow> js_error + inspection_reply"
  operateOnCode :: "nat \<Rightarrow> jstring \<Rightarrow> json list \<Rightarrow> js_error + surgery_reply"

record options =
  screenshotPath :: jstring
  codePath :: path
  autoApply :: bool
  verify :: bool
  maxIterations :: int

datatype iter_inspection =
    InspectionError jstring
  | InspectionData report

datatype iter_surgery =
    SurgeryError jstring
  | SurgeryDone nat

record iter_result =
  it_iteration :: int
  it_inspection :: "iter_inspection option"
  it_surgery :: "iter_surgery option"
  it_verified :: bool

datatype summary =
    EmptySummary
  | InspectionFailedSummary jstring
  | NoDefectsSummary
  | FixedAfterSummary int
  | SurgeryFailedSummary jstring
  | FixedDefectsSummary nat

record flow_result =
  success :: bool
  iterations :: "iter_result list"
  finalCode :: "jstring option"
  previewPath :: "path option"
  assetPrompt :: json
  summary :: summary

record env =
  files :: "path \<rightharpoonup> jstring"
  inspectCalls :: nat
  patchCalls :: nat

record loop_state =
  iteration :: int
  currentCode :: jstring
  result :: flow_result
  world :: env

text \<open>How one pass through the body of the \<open>while\<close> loop ends.\<close>

datatype ctl =
    Throw js_error loop_state
  | Return loop_state
  | Break loop_state
  | Continue loop_state

definition push_iteration :: "iter_result \<Rightarrow> flow_result \<Rightarrow> flow_result" where
  \<comment> \<open>\<open>result.iterations.push(iterResult)\<close>\<close>
  "push_iteration iterResult r = r\<lparr>iterations := iterations r @ [iterResult]\<rparr>"

definition loop_body :: "services \<Rightarrow> options \<Rightarrow> loop_state \<Rightarrow> ctl" where
  "loop_body S opts st0 =
     (let st1 = st0\<lparr>iteration := iteration st0 + 1\<rparr>;
          iterResult = \<lparr>it_iteration = iteration st1, it_inspection = None, it_surgery = None,
                        it_verified = False\<rparr>;
          w1 = (world st1)\<lparr>inspectCalls := inspectCalls (world st1) + 1\<rparr>
      in case inspect S (inspectCalls (world st1)) (screenshotPath opts) of
           Inl e \<Rightarrow> Throw e (st1\<lparr>world := w1\<rparr>)
         | Inr (InspectionFailed err) \<Rightarrow>
             Return (st1\<lparr>world := w1,
               result := (push_iteration
                           (iterResult\<lparr>it_inspection := Some (InspectionError err)\<rparr>)
                           (result st1))
                         \<lparr>summary := InspectionFailedSummary err\<rparr>\<rparr>)
         | Inr (Inspected dat) \<Rightarrow>
             (let iterResult1 = iterResult\<lparr>it_inspection := Some (InspectionData dat)\<rparr> in
              if looks_good dat then
                Return (st1\<lparr>world := w1,
                  result := push_iteration iterResult1
                    ((result st1)
                       \<lparr>success := True,
                        finalCode := Some (currentCode st1),
                        summary := (if iteration st1 = 1 then NoDefectsSummary
                                    else FixedAfterSummary (iteration st1 - 1))\<rparr>)\<rparr>)
              else
                (let result1 = (if needs_asset_generation dat
                                then (result st1)\<lparr>assetPrompt := asset_generation_prompt dat\<rparr>
                                else result st1);
                     w2 = w1\<lparr>patchCalls := patchCalls w1 + 1\<rparr>
                 in case operateOnCode S (patchCalls w1) (currentCode st1) (visual_defects dat) of
                      Inl e \<Rightarrow> Throw e (st1\<lparr>world := w2, result := result1\<rparr>)
                    | Inr (SurgeryFailed err) \<Rightarrow>
                        Return (st1\<lparr>world := w2,
                          result := (push_iteration
                                      (iterResult1\<lparr>it_surgery := Some (SurgeryError err)\<rparr>)
                                      result1)
                                    \<lparr>summary := SurgeryFailedSummary err\<rparr>\<rparr>)
                    | Inr (Patched code) \<Rightarrow>
                        (let st2 = st1\<lparr>world := w2,
                               currentCode := code,
                               result := push_iteration
                                 (iterResult1\<lparr>it_surgery := Some (SurgeryDone (length code))\<rparr>)
                                 result1\<rparr>
                         in if \<not> verify opts then Break st2
                            else Break st2))))"

lemma loop_body_never_continues: "loop_body S opts st \<noteq> Continue st'"
  by (simp add: loop_body_def Let_def split: sum.splits inspection_reply.splits
      surgery_reply.splits)

function while_loop :: "services \<Rightarrow> options \<Rightarrow> loop_state \<Rightarrow> ctl" where
  "while_loop S opts st =
     (if iteration st < maxIterations opts then
        (case loop_body S opts st of
           Continue st' \<Rightarrow> while_loop S opts st'
         | Throw e st' \<Rightarrow> Throw e st'
         | Return st' \<Rightarrow> Return st'
         | Break st' \<Rightarrow> Break st')
      else Break st)"
  by pat_completeness auto
termination
  by (relation "measure (\<lambda>(S, opts, st). nat (maxIterations opts - iteration st))")
    (simp_all add: loop_body_never_continues)

declare while_loop.simps [simp del]

definition first_defect_count :: "flow_result \<Rightarrow> nat" where
  \<comment> \<open>\<open>result.iterations[0]?.inspection?.visual_defects?.length || 0\<close>\<close>
  "first_defect_count r =
     (case iterations r of
        [] \<Rightarrow> 0
      | it # rest \<Rightarrow>
          (case it_inspection it of
             Some (InspectionData dat) \<Rightarrow> length (visual_defects dat)
           | _ \<Rightarrow> 0))"

definition initial_result :: flow_result where
  "initial_result =
     \<lparr>success = False, iterations = [], finalCode = None, previewPath = None,
      assetPrompt = JNull, summary = EmptySummary\<rparr>"

definition write_result :: "options \<Rightarrow> loop_state \<Rightarrow> (js_error + flow_result) \<times> env" where
  \<comment> \<open>what follows the loop: the preview file, the original file under \<open>autoApply\<close>, and
      the final fields of the result\<close>
  "write_result opts st =
     (let previewP = preview_path (codePath opts);
          w1 = (world st)\<lparr>files := (files (world st))(previewP \<mapsto> currentCode st)\<rparr>;
          w2 = (if autoApply opts
                then w1\<lparr>files := (files w1)(codePath opts \<mapsto> currentCode st)\<rparr>
                else w1)
      in (Inr ((result st)
                \<lparr>success := True,
                 finalCode := Some (currentCode st),
                 previewPath := Some previewP,
                 summary := FixedDefectsSummary (first_defect_count (result st))\<rparr>),
          w2))"

definition runFlowState :: "services \<Rightarrow> options \<Rightarrow> env \<Rightarrow> (js_error + flow_result) \<times> env" where
  "runFlowState S opts w0 =
     (case files w0 (codePath opts) of
        None \<Rightarrow> (Inl FsError, w0)
      | Some code \<Rightarrow>
          (case while_loop S opts
                  \<lparr>iteration = 0, currentCode = code, result = initial_result, world = w0\<rparr> of
             Throw e st \<Rightarrow> (Inl e, world st)
           | Return st \<Rightarrow> (Inr (result st), world st)
           | Break st \<Rightarrow> write_result opts st
           | Continue st \<Rightarrow> write_result opts st))"

definition returned :: "(js_error + flow_result) \<times> env \<Rightarrow> flow_result option" where
  \<comment> \<open>the result object of a run that returned, \<open>None\<close> for a run that threw\<close>
  "returned out = (case fst out of Inl e \<Rightarrow> None | Inr r \<Rightarrow> Some r)"

text \<open>
  A scripted run: the inspection service reports one defect on every call, the patch
  service succeeds on every call, and the code file exists.
\<close>

definition defect_report :: report where
  "defect_report =
     \<lparr>looks_good = False,
      visual_defects = [JStr (js ''Button padding is inconsistent with input fields'')],
      needs_asset_generation = False,
      asset_generation_prompt = JNull\<rparr>"

definition scripted_services :: services where
  "scripted_services =
     \<lparr>inspect = (\<lambda>n p. Inr (Inspected defect_report)),
      operateOnCode = (\<lambda>n code defects. Inr (Patched (js ''export default function Card() {}'')))\<rparr>"

definition card_path :: path where
  "card_path = \<lparr>dirname = js ''test-assets'', basename = js ''SignupCard'', extname = js ''.jsx''\<rparr>"

definition scripted_options :: "bool \<Rightarrow> int \<Rightarrow> options" where
  "scripted_options v n =
     \<lparr>screenshotPath = js ''test-assets/broken-ui.png'', codePath = card_path,
      autoApply = False, verify = v, maxIterations = n\<rparr>"

definition scripted_env :: env where
  "scripted_env =
     \<lparr>files = [card_path \<mapsto> js ''export default function Card() { return null }''],
      inspectCalls = 0, patchCalls = 0\<rparr>"

definition passes_recorded :: "(js_error + flow_result) \<times> env \<Rightarrow> nat" where
  \<comment> \<open>the number of entries of \<open>iterations\<close> in the result of a run that returned\<close>
  "passes_recorded out = (case fst out of Inl e \<Rightarrow> 0 | Inr r \<Rightarrow> length (iterations r))"

section \<open>Properties of JavaScript numbers\<close>

lemma js_eq_iff: "js a = js b \<longleftrightarrow> a = b"
  by (simp add: js_def inj_map_eq_map inj_def)

lemma floor_rat_numeral:
  "\<lfloor>(numeral a :: rat) / numeral b\<rfloor> = numeral a div numeral b"
  using floor_divide_of_int_eq [of "numeral a" "numeral b", where ?'a = rat] by simp

lemma ceiling_rat_numeral:
  "\<lceil>(numeral a :: rat) / numeral b\<rceil> = - ((- numeral a) div numeral b)"
  using floor_divide_of_int_eq [of "- numeral a" "numeral b", where ?'a = rat]
  by (simp add: ceiling_def)

lemmas fl_eval =
  floor_rat_numeral ceiling_rat_numeral fl_def Let_def floor_log2_def round_half_even_def
  pow2_def bit_length.simps [of "numeral k" for k] bit_length.simps [of 0]
  bit_length.simps [of 1]

lemma bit_length_bounds:
  "0 < x \<Longrightarrow> 1 \<le> bit_length x \<and> 2 ^ nat (bit_length x - 1) \<le> x \<and> x < 2 ^ nat (bit_length x)"
proof (induction x rule: bit_length.induct)
  case (1 x)
  show ?case
  proof (cases "x = 1")
    case True
    then show ?thesis
      by (simp add: bit_length.simps [of 1] bit_length.simps [of 0])
  next
    case False
    with "1.prems" have pos: "0 < x div 2" by simp
    from "1.IH" [OF _ pos] "1.prems" have
      ih: "1 \<le> bit_length (x div 2)" "2 ^ nat (bit_length (x div 2) - 1) \<le> x div 2"
        "x div 2 < 2 ^ nat (bit_length (x div 2))"
      by auto
    define b where "b = bit_length (x div 2)"
    have bx: "bit_length x = 1 + b"
      using "1.prems" by (subst bit_length.simps) (simp add: b_def)
    from ih(1) have nb: "nat b = Suc (nat (b - 1))"
      by (simp add: b_def)
    have lo: "(2::int) ^ nat b \<le> x"
      using ih(2) unfolding b_def [symmetric] nb by simp
    have hi: "x < 2 ^ Suc (nat b)"
      using ih(3) unfolding b_def [symmetric] by simp
    have "nat (1 + b) = Suc (nat b)" "nat (1 + b - 1) = nat b"
      using ih(1) by (simp_all add: b_def)
    with lo hi ih(1) show ?thesis
      unfolding bx by (simp add: b_def)
  qed
qed

lemma round_half_even_of_int: "round_half_even (of_int j) = j"
  by (simp add: round_half_even_def)

lemma fl_of_int_exact:
  assumes "0 < k" and "k < 2 ^ 53"
  shows "fl (of_int k) = Finite (of_int k)"
proof -
  define e where "e = bit_length k - 1"
  from bit_length_bounds [OF assms(1)] have
    e0: "0 \<le> e" and lo: "2 ^ nat e \<le> k"
    by (simp_all add: e_def)
  have e52: "e \<le> 52"
  proof (rule ccontr)
    assume "\<not> e \<le> 52"
    then have "53 \<le> nat e" by simp
    then have "(2::int) ^ 53 \<le> 2 ^ nat e"
      by (intro power_increasing) simp_all
    with lo assms(2) show False by simp
  qed
  define n where "n = nat (52 - e)"
  have fl2: "floor_log2 (of_int k) = e"
    using assms(1) by (simp add: floor_log2_def e_def)
  have mx: "max e (- 1022) = e"
    using e0 by simp
  have u: "pow2 (e - 52) = 1 / 2 ^ n"
    using e52 by (cases "e = 52") (simp_all add: pow2_def n_def)
  have r: "round_half_even (rat_of_int k * 2 ^ n) = k * 2 ^ n"
    using round_half_even_of_int [of "k * 2 ^ n"] by simp
  have small: "\<not> pow2 1024 \<le> rat_of_int k"
  proof -
    have "rat_of_int k < 2 ^ 53"
      using assms(2) by (metis of_int_less_numeral_power_cancel_iff)
    also have "(2::rat) ^ 53 \<le> 2 ^ 1024"
      by (intro power_increasing) simp_all
    finally show ?thesis by (simp add: pow2_def)
  qed
  have a: "\<bar>rat_of_int k\<bar> = rat_of_int k"
    using assms(1) by simp
  have nz: "rat_of_int k \<noteq> 0" "\<not> rat_of_int k < 0"
    using assms(1) by simp_all
  have "fl (rat_of_int k) =
      (if pow2 1024 \<le> of_int (round_half_even (rat_of_int k / (1 / 2 ^ n))) * (1 / 2 ^ n)
       then PosInfinity
       else Finite (of_int (round_half_even (rat_of_int k / (1 / 2 ^ n))) * (1 / 2 ^ n)))"
    unfolding fl_def Let_def a fl2 mx u using nz by simp
  also have "rat_of_int k / (1 / 2 ^ n) = rat_of_int k * 2 ^ n"
    by simp
  also have "rat_of_int (round_half_even (rat_of_int k * 2 ^ n)) * (1 / 2 ^ n) = rat_of_int k"
    unfolding r by simp
  finally show ?thesis
    using small by simp
qed

lemma fl_two_53: "fl 9007199254740992 = Finite 9007199254740992"
  by (simp add: fl_eval)

lemma fl_of_nat_exact:
  assumes "n \<le> 2 ^ 53"
  shows "fl (of_nat n) = Finite (of_nat n)"
proof -
  consider "n = 0" | "n = 2 ^ 53" | "0 < n" "n < 2 ^ 53"
    using assms by fastforce
  then show ?thesis
  proof cases
    case 1
    then show ?thesis by (simp add: fl_def)
  next
    case 2
    have "rat_of_nat (2 ^ 53) = 9007199254740992" by simp
    with 2 fl_two_53 show ?thesis by simp
  next
    case 3
    then have "0 < int n" "int n < 2 ^ 53"
      by (simp_all add: of_nat_less_numeral_power_cancel_iff)
    from fl_of_int_exact [OF this] show ?thesis by simp
  qed
qed

lemma increment_exact:
  "n < 2 ^ 53 \<Longrightarrow> increment (Finite (of_nat n)) = Finite (of_nat n + 1)"
  using fl_of_nat_exact [of "Suc n"] by (simp add: increment_def add.commute)

section \<open>Properties of the usage ledger\<close>

lemma pricing_for_cases:
  "pricing_for m = pricing_gemini_3_pro \<or> pricing_for m = pricing_image_generation
     \<or> pricing_for m = pricing_gemini_2_flash"
  by (simp add: pricing_for_def PRICING_def)

lemma fl_002: "fl 0.02 = Finite (5764607523034235 / 288230376151711744)"
  by (simp add: fl_eval)

lemma fl_0005: "fl 0.0005 = Finite (1152921504606847 / 2305843009213693952)"
  by (simp add: fl_eval)

lemma fl_00025: "fl 0.00025 = Finite (1152921504606847 / 4611686018427387904)"
  by (simp add: fl_eval)

lemma fl_001: "fl 0.01 = Finite (5764607523034235 / 576460752303423488)"
  by (simp add: fl_eval)

lemma image_cost_flat: "call_cost m i out True = fl 0.02"
  using pricing_for_cases [of m]
  by (auto simp: call_cost_def Let_def or_number_def pricing_gemini_3_pro_def
      pricing_image_generation_def pricing_gemini_2_flash_def fl_002 num_falsy_def)

lemma analysis_cost:
  assumes "p_input (pricing_for m) = Some (fl 0.00025)"
    and "p_output (pricing_for m) = Some (fl 0.0005)"
  shows "call_cost m (Finite 1000) (Finite 500) False = fl 0.0005"
proof -
  have d1: "num_div (Finite 1000) (Finite 1000) = Finite 1"
    by (simp add: fl_eval)
  have d2: "num_div (Finite 500) (Finite 1000) = Finite (1 / 2)"
    by (simp add: fl_eval)
  have m1: "num_mul (Finite 1) (fl 0.00025) = fl 0.00025"
    unfolding fl_00025 by (simp add: fl_eval)
  have m2: "num_mul (Finite (1 / 2)) (fl 0.0005) = fl 0.00025"
    unfolding fl_0005 fl_00025 by (simp add: fl_eval)
  have s: "num_add (fl 0.00025) (fl 0.00025) = fl 0.0005"
    unfolding fl_0005 fl_00025 by (simp add: fl_eval)
  have t: "or_number (Some (fl 0.00025)) x = fl 0.00025"
    "or_number (Some (fl 0.0005)) x = fl 0.0005" for x
    unfolding fl_0005 fl_00025 by (simp_all add: or_number_def num_falsy_def)
  show ?thesis
    unfolding call_cost_def Let_def assms t d1 d2 m1 m2 s by simp
qed

lemma track_totals:
  "totals (snd (track now m e i out img p d)) =
     (totals d)\<lparr>imagesGenerated := (if img then increment (imagesGenerated (totals d))
                                     else imagesGenerated (totals d)),
       apiCalls := increment (apiCalls (totals d)),
       inputTokens := num_add (inputTokens (totals d)) i,
       outputTokens := num_add (outputTokens (totals d)) out,
       estimatedCost := num_add (estimatedCost (totals d)) (call_cost m i out img)\<rparr>"
  by (simp add: track_def Let_def)

lemma track_cost: "cost (fst (track now m e i out img p d)) = call_cost m i out img"
  by (simp add: track_def Let_def)

lemma track_session:
  "session (snd (track now m e i out img p d)) =
     (session d)\<lparr>budgetUsed := num_add (budgetUsed (session d)) (call_cost m i out img)\<rparr>"
  by (simp add: track_def Let_def)

text \<open>
  Claim C8 (as amended). From any ledger, one \<open>track\<close> call with \<open>isImage = false\<close>, 1000
  input tokens and 500 output tokens, for a model priced at 0.00025 (input) and 0.0005
  (output) per 1K tokens, has exactly the double 0.0005 as its cost, makes
  \<open>totals.estimatedCost\<close> the double sum of its old value and 0.0005 (so exactly 0.0005 from
  a ledger without cost), and leaves \<open>totals.imagesGenerated\<close> unchanged. One \<open>track\<close>
  call with \<open>isImage = true\<close>, for any model and any token arguments, costs the flat
  per-image price \<open>pricing.perImage || 0.02\<close>, which is the double 0.02 for every model,
  makes \<open>totals.estimatedCost\<close> the double sum of its old value and 0.02, and makes
  \<open>totals.imagesGenerated\<close> the double sum of its old value and 1, which is exactly one
  more while the count is a whole number below \<open>2^53\<close>.
\<close>

theorem track_accounting:
  "(p_input (pricing_for m) = Some (fl 0.00025) \<and> p_output (pricing_for m) = Some (fl 0.0005) \<longrightarrow>
      cost (fst (track now m e (Finite 1000) (Finite 500) False p d)) = fl 0.0005
      \<and> estimatedCost (totals (snd (track now m e (Finite 1000) (Finite 500) False p d)))
          = num_add (estimatedCost (totals d)) (fl 0.0005)
      \<and> imagesGenerated (totals (snd (track now m e (Finite 1000) (Finite 500) False p d)))
          = imagesGenerated (totals d)
      \<and> (estimatedCost (totals d) = Finite 0 \<longrightarrow>
           estimatedCost (totals (snd (track now m e (Finite 1000) (Finite 500) False p d)))
             = fl 0.0005))
   \<and> cost (fst (track now m' e' i out True p' d)) = fl 0.02
   \<and> or_number (p_perImage (pricing_for m')) (fl 0.02) = fl 0.02
   \<and> estimatedCost (totals (snd (track now m' e' i out True p' d)))
        = num_add (estimatedCost (totals d)) (fl 0.02)
   \<and> imagesGenerated (totals (snd (track now m' e' i out True p' d)))
        = num_add (imagesGenerated (totals d)) (Finite 1)
   \<and> (\<forall>n. imagesGenerated (totals d) = Finite (of_nat n) \<and> n < 2 ^ 53 \<longrightarrow>
         imagesGenerated (totals (snd (track now m' e' i out True p' d))) = Finite (of_nat n + 1))"
proof -
  let ?a = "track now m e (Finite 1000) (Finite 500) False p d"
  let ?b = "track now m' e' i out True p' d"
  have zero: "num_add (Finite 0) (fl 0.0005) = fl 0.0005"
    unfolding fl_0005 by (simp add: fl_eval)
  have a1: "cost (fst ?a) = fl 0.0005"
    and a2: "estimatedCost (totals (snd ?a)) = num_add (estimatedCost (totals d)) (fl 0.0005)"
    if "p_input (pricing_for m) = Some (fl 0.00025)" "p_output (pricing_for m) = Some (fl 0.0005)"
    unfolding track_cost track_totals analysis_cost [OF that] by simp_all
  have a3: "imagesGenerated (totals (snd ?a)) = imagesGenerated (totals d)"
    unfolding track_totals by simp
  have a4: "estimatedCost (totals (snd ?a)) = fl 0.0005"
    if "p_input (pricing_for m) = Some (fl 0.00025)" "p_output (pricing_for m) = Some (fl 0.0005)"
      "estimatedCost (totals d) = Finite 0"
    unfolding a2 [OF that(1,2)] that(3) by (rule zero)
  have b1: "cost (fst ?b) = fl 0.02"
    unfolding track_cost by (rule image_cost_flat)
  have b2: "or_number (p_perImage (pricing_for m')) (fl 0.02) = fl 0.02"
    using image_cost_flat [of m' i out] unfolding call_cost_def Let_def by simp
  have b3: "estimatedCost (totals (snd ?b)) = num_add (estimatedCost (totals d)) (fl 0.02)"
    unfolding track_totals image_cost_flat by simp
  have b4: "imagesGenerated (totals (snd ?b)) = num_add (imagesGenerated (totals d)) (Finite 1)"
    unfolding track_totals increment_def by simp
  have b5: "imagesGenerated (totals (snd ?b)) = Finite (of_nat n + 1)"
    if "imagesGenerated (totals d) = Finite (of_nat n)" "n < 2 ^ 53" for n
    unfolding track_totals that(1) using increment_exact [OF that(2)] by simp
  from a1 a2 a3 a4 b1 b2 b3 b4 b5 show ?thesis by blast
qed


lemma analysis_pricing:
  "p_input (pricing_for (js ''gemini-3-pro-preview'')) = Some (fl 0.00025)"
  "p_output (pricing_for (js ''gemini-3-pro-preview'')) = Some (fl 0.0005)"
  by (simp_all add: pricing_for_def PRICING_def pricing_gemini_3_pro_def)

lemma track_analysis_cost:
  "estimatedCost (totals (track_analysis d)) = num_add (estimatedCost (totals d)) (fl 0.0005)"
  "imagesGenerated (totals (track_analysis d)) = imagesGenerated (totals d)"
  unfolding track_analysis_def track_totals analysis_cost [OF analysis_pricing] by simp_all

lemma track_image_cost:
  "estimatedCost (totals (track_image d)) = num_add (estimatedCost (totals d)) (fl 0.02)"
  "imagesGenerated (totals (track_image d)) = num_add (imagesGenerated (totals d)) (Finite 1)"
  "budgetUsed (session (track_image d)) = num_add (budgetUsed (session d)) (fl 0.02)"
  "budget (session (track_image d)) = budget (session d)"
  unfolding track_image_def track_totals track_session image_cost_flat increment_def by simp_all

theorem track_accounting_witness:
  "p_input (pricing_for (js ''gemini-3-pro-preview'')) = Some (fl 0.00025)
   \<and> p_output (pricing_for (js ''gemini-3-pro-preview'')) = Some (fl 0.0005)
   \<and> estimatedCost (totals ledger_cent) = Finite 0
   \<and> imagesGenerated (totals ledger_cent) = Finite (of_nat 0)
   \<and> estimatedCost (totals (track_analysis ledger_cent)) = fl 0.0005
   \<and> imagesGenerated (totals (track_analysis ledger_cent)) = Finite 0
   \<and> imagesGenerated (totals (track_image ledger_cent)) = Finite 1"
proof -
  have z: "estimatedCost (totals ledger_cent) = Finite 0"
    "imagesGenerated (totals ledger_cent) = Finite (of_nat 0)"
    by (simp_all add: ledger_cent_def setBudget_def getDefaultData_def)
  note T = track_accounting [of "js ''gemini-3-pro-preview''" "js ''2025-01-01T00:00:01.000Z''"
      "js ''/api/analyze''" "js ''analyze''" ledger_cent
      "js ''gemini-2.0-flash-preview-image-generation''" "js ''/api/generate-asset''"
      "Finite 0" "Finite 0" "js ''avatar''"]
  have small: "(0::nat) < 2 ^ 53" by simp
  from T analysis_pricing z(1) have
    w1: "estimatedCost (totals (track_analysis ledger_cent)) = fl 0.0005"
    unfolding track_analysis_def by blast
  from T analysis_pricing have
    w2: "imagesGenerated (totals (track_analysis ledger_cent)) = imagesGenerated (totals ledger_cent)"
    unfolding track_analysis_def by blast
  from T z(2) small have
    w3: "imagesGenerated (totals (track_image ledger_cent)) = Finite (of_nat 0 + 1)"
    unfolding track_image_def by blast
  from analysis_pricing z w1 w2 w3 show ?thesis by simp
qed

text \<open>
  The sums are sums of doubles. After eight such calls from a fresh ledger
  \<open>estimatedCost\<close> is the double 0.004, and the ninth call makes it
  0.0045000000000000005: the increase is neither the double 0.0005 nor the decimal 0.0005.
  A ledger that counts \<open>2^53\<close> images still counts \<open>2^53\<close> after one more image.
\<close>

theorem track_accounting_rounding_counterexample:
  "estimatedCost (totals ledger_after_eight) = Finite (1152921504606847 / 288230376151711744)
   \<and> cost (fst (track (js ''2025-01-01T00:00:01.000Z'') (js ''gemini-3-pro-preview'')
            (js ''/api/analyze'') (Finite 1000) (Finite 500) False (js ''analyze'')
            ledger_after_eight))
       = Finite (1152921504606847 / 2305843009213693952)
   \<and> estimatedCost (totals (track_analysis ledger_after_eight))
       = Finite (1297036692682703 / 288230376151711744)
   \<and> (1297036692682703 / 288230376151711744 - 1152921504606847 / 288230376151711744 :: rat)
       \<noteq> 1152921504606847 / 2305843009213693952
   \<and> (1297036692682703 / 288230376151711744 - 1152921504606847 / 288230376151711744 :: rat)
       \<noteq> 0.0005
   \<and> imagesGenerated (totals ledger_many_images) = Finite 9007199254740992
   \<and> imagesGenerated (totals (track_image ledger_many_images)) = Finite 9007199254740992"
proof -
  have e8: "estimatedCost (totals ledger_after_eight)
      = Finite (1152921504606847 / 288230376151711744)"
    unfolding ledger_after_eight_def track_analysis_cost fl_0005
    by (simp add: getDefaultData_def fl_eval)
  have c: "cost (fst (track (js ''2025-01-01T00:00:01.000Z'') (js ''gemini-3-pro-preview'')
            (js ''/api/analyze'') (Finite 1000) (Finite 500) False (js ''analyze'')
            ledger_after_eight))
       = Finite (1152921504606847 / 2305843009213693952)"
    unfolding track_cost analysis_cost [OF analysis_pricing] by (rule fl_0005)
  have e9: "estimatedCost (totals (track_analysis ledger_after_eight))
       = Finite (1297036692682703 / 288230376151711744)"
    unfolding track_analysis_cost(1) [of ledger_after_eight] e8 fl_0005
    by (simp add: fl_eval)
  have i0: "imagesGenerated (totals ledger_many_images) = Finite 9007199254740992"
    by (simp add: ledger_many_images_def)
  have i1: "imagesGenerated (totals (track_image ledger_many_images)) = Finite 9007199254740992"
    unfolding track_image_cost i0 by (simp add: fl_eval)
  from e8 c e9 i0 i1 show ?thesis by simp
qed

text \<open>
  Claim C7. \<open>checkBudget(estimatedCost)\<close> returns \<open>allowed = true\<close> exactly when
  \<open>budget - budgetUsed >= estimatedCost\<close> holds of the doubles, the difference of two finite
  amounts being their exact difference rounded to the nearest double. With budget 0.01,
  nothing used and an estimated cost of 0.02 it returns \<open>allowed = false\<close>. Whenever the
  check for 0.02 is refused, the handler of \<open>/api/generate-asset\<close> makes no model call and
  leaves the ledger unchanged, whatever the request body is; and an asset request as the
  handler documents it (a non-empty string as prompt, context and theme absent or
  convertible to strings) is answered 402 with the budget-exceeded error and the
  remaining budget.
\<close>

theorem checkBudget_gate:
  "(allowed (checkBudget c d)
      \<longleftrightarrow> num_ge (num_sub (budget (session d)) (budgetUsed (session d))) c)
   \<and> (\<forall>b u. budget (session d) = Finite b \<and> budgetUsed (session d) = Finite u \<longrightarrow>
         remaining (checkBudget c d) = fl (b - u))
   \<and> (budget (session d) = fl 0.01 \<and> budgetUsed (session d) = Finite 0 \<longrightarrow>
         \<not> allowed (checkBudget (fl 0.02) d))
   \<and> (\<not> allowed (checkBudget (fl 0.02) d) \<longrightarrow>
        snd (snd (generate_asset_handler artist now reqBody d)) = 0
        \<and> fst (snd (generate_asset_handler artist now reqBody d)) = d
        \<and> (\<forall>p. field reqBody (js ''prompt'') = Some (JStr p) \<and> p \<noteq> []
               \<and> (\<forall>v. field reqBody (js ''context'') = Some v \<longrightarrow> \<not> to_string_throws v)
               \<and> (\<forall>v. field reqBody (js ''theme'') = Some v \<longrightarrow> \<not> to_string_throws v)
             \<longrightarrow> fst (generate_asset_handler artist now reqBody d) =
                   \<lparr>resp_status = 402,
                    resp_body = BudgetExceeded
                      (num_sub (budget (session d)) (budgetUsed (session d)))\<rparr>))"
proof -
  have iff: "allowed (checkBudget c d)
      \<longleftrightarrow> num_ge (num_sub (budget (session d)) (budgetUsed (session d))) c"
    by (simp add: checkBudget_def Let_def)
  have rem: "remaining (checkBudget c d) = fl (b - u)"
    if "budget (session d) = Finite b" "budgetUsed (session d) = Finite u" for b u
    using that by (simp add: checkBudget_def Let_def num_sub_def)
  have cent: "\<not> allowed (checkBudget (fl 0.02) d)"
    if "budget (session d) = fl 0.01" "budgetUsed (session d) = Finite 0"
    unfolding checkBudget_def Let_def that fl_001 fl_002
    by (simp add: num_sub_def num_ge_def fl_eval)
  have calls: "snd (snd (generate_asset_handler artist now reqBody d)) = 0"
    and same: "fst (snd (generate_asset_handler artist now reqBody d)) = d"
    if "\<not> allowed (checkBudget (fl 0.02) d)"
    using that
    by (auto simp: generate_asset_handler_def Let_def
        split: sum.splits option.splits json.splits)
  have refuse: "fst (generate_asset_handler artist now reqBody d) =
        \<lparr>resp_status = 402,
         resp_body = BudgetExceeded (num_sub (budget (session d)) (budgetUsed (session d)))\<rparr>"
    if "\<not> allowed (checkBudget (fl 0.02) d)"
      and "field reqBody (js ''prompt'') = Some (JStr p)" "p \<noteq> []"
      and "\<forall>v. field reqBody (js ''context'') = Some v \<longrightarrow> \<not> to_string_throws v"
      and "\<forall>v. field reqBody (js ''theme'') = Some v \<longrightarrow> \<not> to_string_throws v"
    for p
  proof -
    from that(2) have nn: "reqBody \<noteq> JNull" by auto
    have r: "remaining (checkBudget x d)
        = num_sub (budget (session d)) (budgetUsed (session d))" for x
      by (simp add: checkBudget_def Let_def)
    show ?thesis
      using that nn
      by (auto simp: generate_asset_handler_def get_prop_def Let_def absent_or_falsy_def r
          split: option.splits)
  qed
  from iff rem cent calls same refuse show ?thesis by blast
qed


lemma fl_006: "fl 0.06 = Finite (1080863910568919 / 18014398509481984)"
  by (simp add: fl_eval)

lemma checkBudget_after_two_images:
  "\<not> allowed (checkBudget (fl 0.02)
        (track_image (track_image (setBudget (fl 0.06)
           (getDefaultData (js ''2025-01-01T00:00:00.000Z''))))))"
  unfolding checkBudget_def Let_def track_image_cost fl_002 fl_006
  by (simp add: setBudget_def getDefaultData_def num_sub_def num_ge_def fl_eval)

theorem checkBudget_gate_witness:
  "budget (session ledger_cent) = fl 0.01
   \<and> budgetUsed (session ledger_cent) = Finite 0
   \<and> \<not> allowed (checkBudget (fl 0.02) ledger_cent)
   \<and> field request_avatar (js ''prompt'') = Some (JStr (js ''avatar''))
   \<and> field request_avatar (js ''context'') = None
   \<and> field request_avatar (js ''theme'') = None
   \<and> generate_asset_handler artist_ok (js ''2025-01-01T00:00:01.000Z'') request_avatar ledger_cent
       = (\<lparr>resp_status = 402, resp_body = BudgetExceeded (fl 0.01)\<rparr>, ledger_cent, 0)"
proof -
  let ?h = "generate_asset_handler artist_ok (js ''2025-01-01T00:00:01.000Z'') request_avatar
              ledger_cent"
  have b: "budget (session ledger_cent) = fl 0.01" "budgetUsed (session ledger_cent) = Finite 0"
    by (simp_all add: ledger_cent_def setBudget_def getDefaultData_def)
  have f: "field request_avatar (js ''prompt'') = Some (JStr (js ''avatar''))"
    "field request_avatar (js ''context'') = None"
    "field request_avatar (js ''theme'') = None"
    by (simp_all add: request_avatar_def js_eq_iff)
  have ne: "js ''avatar'' \<noteq> []"
    by (simp add: js_def)
  have rem: "num_sub (fl 0.01) (Finite 0) = fl 0.01"
    unfolding fl_001 by (simp add: num_sub_def fl_eval)
  note G = checkBudget_gate [of "fl 0.02" ledger_cent artist_ok
      "js ''2025-01-01T00:00:01.000Z''" request_avatar]
  from G b have refused: "\<not> allowed (checkBudget (fl 0.02) ledger_cent)"
    by blast
  from G refused have c: "snd (snd ?h) = 0" and d: "fst (snd ?h) = ledger_cent"
    by blast+
  from G refused f ne have
    "fst ?h = \<lparr>resp_status = 402,
               resp_body = BudgetExceeded
                 (num_sub (budget (session ledger_cent)) (budgetUsed (session ledger_cent)))\<rparr>"
    by auto
  then have r: "fst ?h = \<lparr>resp_status = 402, resp_body = BudgetExceeded (fl 0.01)\<rparr>"
    unfolding b rem .
  from r c d have "?h = (\<lparr>resp_status = 402, resp_body = BudgetExceeded (fl 0.01)\<rparr>,
      ledger_cent, 0)"
    by (simp add: prod_eq_iff)
  with b refused f show ?thesis by blast
qed

text \<open>
  The rounding is that of the code: with a budget of 0.06, after two tracked images the
  remaining budget is 0.019999999999999997 and a third image is refused. A request that
  is not an asset request is rejected before the budget is consulted: 400 without a
  prompt, 500 for a truthy prompt that is not a string.
\<close>

lemma generate_asset_invalid_prompt:
  "fst (generate_asset_handler artist now (JObj []) d) = \<lparr>resp_status = 400, resp_body = MissingPrompt\<rparr>"
  "fst (generate_asset_handler artist now (JObj [(js ''prompt'', JNum (Finite 5))]) d)
     = \<lparr>resp_status = 500, resp_body = CaughtError TypeError\<rparr>"
  by (simp_all add: generate_asset_handler_def get_prop_def absent_or_falsy_def num_falsy_def
      js_eq_iff)

text \<open>
  Claim C9. After \<open>resetSession()\<close> the budget of the session is the default 10.00, whatever
  budget \<open>setBudget\<close> had configured: the whole ledger is replaced by the default data,
  whose start time is the time of the reset, and nothing of the previous ledger remains.
\<close>

theorem resetSession_replaces_ledger:
  "budget (session (resetSession now (setBudget amount d))) = Finite 10
   \<and> resetSession now d = getDefaultData now
   \<and> startTime (session (resetSession now d)) = now
   \<and> budgetUsed (session (resetSession now d)) = Finite 0
   \<and> history (resetSession now d) = []"
  by (simp add: resetSession_def getDefaultData_def DEFAULT_BUDGET_def)

section \<open>Properties of the response normalizer\<close>

lemma js_Nil: "js [] = []"
  by (simp add: js_def)

lemma js_Cons: "js (c # cs) = of_char c # js cs"
  by (simp add: js_def)

text \<open>
  Claim C6. \<open>parseSurgeonResponse("ok")\<close> fails (\<open>success = false\<close>, \<open>code = null\<close>): its two
  code units are below the threshold of 10. Applied to a \<open>jsx\<close> fence, a line feed,
  \<open>const x = 1;\<close>, a line feed and a closing fence, it succeeds with exactly
  \<open>const x = 1;\<close> as code. On every text the function returns without throwing, and
  \<open>success\<close> is true exactly when \<open>code\<close> is a string (not null).
\<close>

theorem parseSurgeonResponse_threshold_and_fence:
  "parseSurgeonResponse (js ''ok'') =
     Inr \<lparr>s_success = False, s_code = None,
          s_error = Some (Error (js ''Response too short to be valid code''))\<rparr>
   \<and> parseSurgeonResponse (js ''```jsx'' @ [10] @ js ''const x = 1;'' @ [10] @ js ''```'') =
     Inr \<lparr>s_success = True, s_code = Some (js ''const x = 1;''), s_error = None\<rparr>
   \<and> (\<exists>r. parseSurgeonResponse text = Inr r \<and> s_success r = (s_code r \<noteq> None))"
proof (intro conjI)
  show "parseSurgeonResponse (js ''ok'') =
     Inr \<lparr>s_success = False, s_code = None,
          s_error = Some (Error (js ''Response too short to be valid code''))\<rparr>"
    by (simp add: parseSurgeonResponse_def try_catch_def Let_def trim_def codeBlockMatch_def
        js_Nil js_Cons is_js_space_def)
  show "parseSurgeonResponse (js ''```jsx'' @ [10] @ js ''const x = 1;'' @ [10] @ js ''```'') =
     Inr \<lparr>s_success = True, s_code = Some (js ''const x = 1;''), s_error = None\<rparr>"
    by (simp add: parseSurgeonResponse_def try_catch_def Let_def trim_def codeBlockMatch_def
        js_Nil js_Cons is_js_space_def strip_language_tag_def)
  show "\<exists>r. parseSurgeonResponse text = Inr r \<and> s_success r = (s_code r \<noteq> None)"
    by (simp add: parseSurgeonResponse_def try_catch_def Let_def)
qed

subsection \<open>Evaluating the reader and the cleaning step\<close>

lemmas read_numeral =
  read_value.simps(2) [of "pred_numeral k", folded numeral_eq_Suc]
  read_elements.simps(2) [of "pred_numeral k", folded numeral_eq_Suc]
  read_members.simps(2) [of "pred_numeral k", folded numeral_eq_Suc]
  for k

lemmas json_eval =
  JSON_parse_def js_Nil js_Cons skip_ws_def is_json_ws_def is_digit_def
  read_number_def digits_value_def prepend_def escape_char_def hex_digit_def Let_def
  read_numeral fl_eval

lemmas clean_eval = clean_response_def trim_def is_js_space_def lower_ascii_def js_Nil js_Cons

lemma clean_numeric: "clean_response response_numeric_prompt = response_numeric_prompt"
  unfolding response_numeric_prompt_def by (simp add: clean_eval)

lemma clean_wrong_type: \<open>clean_response response_wrong_type = js ''{"looks_good":"yes"}''\<close>
  unfolding response_wrong_type_def by (simp add: clean_eval)

lemma parse_wrong_type: \<open>JSON_parse (js ''{"looks_good":"yes"}'') = Some (JObj [(js ''looks_good'', JStr (js ''yes''))])\<close>
  by (simp add: json_eval)

lemma clean_description: "clean_response response_description_only = response_description_only"
  unfolding response_description_only_def by (simp add: clean_eval)

lemma parse_description: \<open>JSON_parse response_description_only =
   Some (JObj [(js ''looks_good'', JBool False),
     (js ''visual_defects'', JArr [JObj [(js ''description'', JStr (js ''Low contrast''))]]),
     (js ''needs_asset_generation'', JBool False)])\<close>
  unfolding response_description_only_def by (simp add: json_eval)

lemma clean_with_prompt: "clean_response response_with_prompt = response_with_prompt"
  unfolding response_with_prompt_def by (simp add: clean_eval)

lemma parse_with_prompt: \<open>JSON_parse response_with_prompt =
   Some (JObj [(js ''looks_good'', JBool False), (js ''visual_defects'', JArr []),
      (js ''needs_asset_generation'', JBool True),
      (js ''asset_generation_prompt'', JStr (js ''avatar''))])\<close>
  unfolding response_with_prompt_def by (simp add: json_eval)

lemma parse_garbage: "JSON_parse (js ''Sorry, I cannot see the image.'') = None"
  by (simp add: json_eval)

lemma clean_garbage: "clean_response (js ''Sorry, I cannot see the image.'') = js ''Sorry, I cannot see the image.''"
  by (simp add: clean_eval)


lemma parse_numeric: \<open>JSON_parse response_numeric_prompt =
   Some (JObj [(js ''looks_good'', JBool True), (js ''visual_defects'', JArr []),
      (js ''needs_asset_generation'', JBool False), (js ''asset_generation_prompt'', JNum (Finite 5))])\<close>
  unfolding response_numeric_prompt_def
  by (simp add: json_eval)

lemma validate_report_ok:
  assumes "validate_report parsed = Inr u"
  shows "is_boolean (field parsed (js ''looks_good''))"
    and "is_array (field parsed (js ''visual_defects''))"
    and "is_boolean (field parsed (js ''needs_asset_generation''))"
  using assms
  by (auto simp: validate_report_def get_prop_def split: if_splits)

lemma is_boolean_value_of: "is_boolean x \<Longrightarrow> is_boolean (Some (value_of x))"
  by (auto simp: is_boolean_def value_of_def split: option.splits json.splits)

lemma or_else_null:
  "or_else x JNull = JNull \<or> (\<not> absent_or_falsy (Some (or_else x JNull)) \<and> x = Some (or_else x JNull))"
  by (auto simp: or_else_def absent_or_falsy_def split: option.splits)

lemma or_else_eq:
  "or_else x d = (if absent_or_falsy x then d else value_of x)"
  by (auto simp: or_else_def absent_or_falsy_def value_of_def split: option.splits)

lemma fallback_shape: "DefectReport_shape fallback_report"
  by (simp add: DefectReport_shape_def fallback_report_def is_boolean_def is_array_def js_eq_iff)

lemma parseInspectorResponse_cases:
  "(\<exists>e. parseInspectorResponse parse text =
          Inr \<lparr>i_success = False, i_error = Some e, i_data = fallback_report\<rparr>)
   \<or> (\<exists>parsed nds. parse (clean_response text) = Some parsed
         \<and> validate_report parsed = Inr ()
         \<and> normalize_defects (elements (field parsed (js ''visual_defects''))) 0 = Inr nds
         \<and> parseInspectorResponse parse text =
             Inr \<lparr>i_success = True, i_error = None,
                  i_data = JObj
                    [(js ''looks_good'', value_of (field parsed (js ''looks_good''))),
                     (js ''visual_defects'', JArr nds),
                     (js ''needs_asset_generation'',
                        value_of (field parsed (js ''needs_asset_generation''))),
                     (js ''asset_generation_prompt'',
                        or_else (field parsed (js ''asset_generation_prompt'')) JNull)]\<rparr>)"
  by (auto simp: parseInspectorResponse_def try_catch_def split: option.splits sum.splits)

text \<open>
  Claim C1 (as amended). For every input text, and whatever \<open>JSON.parse\<close> does on it,
  \<open>parseInspectorResponse\<close> returns without throwing, and in the \<open>data\<close> of its result
  \<open>looks_good\<close> is a boolean, \<open>visual_defects\<close> is an array, \<open>needs_asset_generation\<close>
  is a boolean and \<open>asset_generation_prompt\<close> is null or a truthy value. That value is a
  string or null unless the parsed response carries a truthy \<open>asset_generation_prompt\<close>
  that is not a string. In every accepted report the field is passed through as it is:
  null when the parsed field is absent or falsy, and the parsed field's own value
  otherwise, whether a string or not.
\<close>

theorem parseInspectorResponse_total:
  "\<exists>r. parseInspectorResponse parse text = Inr r
     \<and> DefectReport_shape_any_prompt (i_data r)
     \<and> (DefectReport_shape (i_data r)
        \<or> (\<exists>parsed v. parse (clean_response text) = Some parsed
              \<and> field parsed (js ''asset_generation_prompt'') = Some v
              \<and> truthy v \<and> \<not> is_string (Some v)
              \<and> field (i_data r) (js ''asset_generation_prompt'') = Some v))
     \<and> (i_success r \<longrightarrow>
          (\<exists>parsed. parse (clean_response text) = Some parsed
             \<and> field (i_data r) (js ''asset_generation_prompt'') =
                 Some (if absent_or_falsy (field parsed (js ''asset_generation_prompt''))
                       then JNull
                       else value_of (field parsed (js ''asset_generation_prompt'')))))"
proof -
  consider (fallback) e where "parseInspectorResponse parse text =
          Inr \<lparr>i_success = False, i_error = Some e, i_data = fallback_report\<rparr>"
    | (ok) parsed nds where "parse (clean_response text) = Some parsed"
        "validate_report parsed = Inr ()"
        "parseInspectorResponse parse text =
             Inr \<lparr>i_success = True, i_error = None,
                  i_data = JObj
                    [(js ''looks_good'', value_of (field parsed (js ''looks_good''))),
                     (js ''visual_defects'', JArr nds),
                     (js ''needs_asset_generation'',
                        value_of (field parsed (js ''needs_asset_generation''))),
                     (js ''asset_generation_prompt'',
                        or_else (field parsed (js ''asset_generation_prompt'')) JNull)]\<rparr>"
    using parseInspectorResponse_cases [of parse "text"] by blast
  then show ?thesis
  proof cases
    case fallback
    have "DefectReport_shape_any_prompt fallback_report"
      using fallback_shape
      by (auto simp: DefectReport_shape_def DefectReport_shape_any_prompt_def
          fallback_report_def js_eq_iff)
    with fallback fallback_shape show ?thesis by simp
  next
    case ok
    let ?p = "field parsed (js ''asset_generation_prompt'')"
    let ?d = "JObj
                    [(js ''looks_good'', value_of (field parsed (js ''looks_good''))),
                     (js ''visual_defects'', JArr nds),
                     (js ''needs_asset_generation'',
                        value_of (field parsed (js ''needs_asset_generation''))),
                     (js ''asset_generation_prompt'', or_else ?p JNull)]"
    have b1: "is_boolean (field ?d (js ''looks_good''))"
      using validate_report_ok(1) [OF ok(2)] by (simp add: js_eq_iff is_boolean_value_of)
    have b2: "is_array (field ?d (js ''visual_defects''))"
      by (simp add: js_eq_iff is_array_def)
    have b3: "is_boolean (field ?d (js ''needs_asset_generation''))"
      using validate_report_ok(3) [OF ok(2)] by (simp add: js_eq_iff is_boolean_value_of)
    have b4: "field ?d (js ''asset_generation_prompt'') = Some (or_else ?p JNull)"
      by (simp add: js_eq_iff)
    have any: "DefectReport_shape_any_prompt ?d"
      unfolding DefectReport_shape_any_prompt_def b4
      using b1 b2 b3 or_else_null [of ?p] by auto
    have alt: "DefectReport_shape ?d
        \<or> (\<exists>v. ?p = Some v \<and> truthy v \<and> \<not> is_string (Some v)
              \<and> field ?d (js ''asset_generation_prompt'') = Some v)"
    proof (cases "is_string (Some (or_else ?p JNull)) \<or> or_else ?p JNull = JNull")
      case True
      then show ?thesis
        unfolding DefectReport_shape_def b4 using b1 b2 b3 by auto
    next
      case False
      with or_else_null [of ?p]
      have "?p = Some (or_else ?p JNull)" "truthy (or_else ?p JNull)"
        "\<not> is_string (Some (or_else ?p JNull))"
        by (auto simp: absent_or_falsy_def)
      with b4 show ?thesis by metis
    qed
    have pass: "field ?d (js ''asset_generation_prompt'') =
        Some (if absent_or_falsy ?p then JNull else value_of ?p)"
      unfolding b4 by (simp add: or_else_eq)
    from ok(1,3) any alt pass show ?thesis by auto
  qed
qed

theorem parseInspectorResponse_total_witness:
  "parseInspectorResponse JSON_parse response_description_only =
     Inr \<lparr>i_success = True, i_error = None,
          i_data = JObj
            [(js ''looks_good'', JBool False),
             (js ''visual_defects'',
                JArr [JObj
                  [(js ''id'', JStr (js ''defect-1'')),
                   (js ''element'', JStr (js ''unknown'')),
                   (js ''element_text'', JNull),
                   (js ''selector_hint'', JStr (js ''*'')),
                   (js ''issue'', JStr (js ''Low contrast'')),
                   (js ''expected'', JNull),
                   (js ''why'', JNull)]]),
             (js ''needs_asset_generation'', JBool False),
             (js ''asset_generation_prompt'', JNull)]\<rparr>
   \<and> DefectReport_shape_any_prompt (JObj
            [(js ''looks_good'', JBool False),
             (js ''visual_defects'',
                JArr [JObj
                  [(js ''id'', JStr (js ''defect-1'')),
                   (js ''element'', JStr (js ''unknown'')),
                   (js ''element_text'', JNull),
                   (js ''selector_hint'', JStr (js ''*'')),
                   (js ''issue'', JStr (js ''Low contrast'')),
                   (js ''expected'', JNull),
                   (js ''why'', JNull)]]),
             (js ''needs_asset_generation'', JBool False),
             (js ''asset_generation_prompt'', JNull)])
   \<and> parseInspectorResponse JSON_parse response_with_prompt =
     Inr \<lparr>i_success = True, i_error = None,
          i_data = JObj
            [(js ''looks_good'', JBool False),
             (js ''visual_defects'', JArr []),
             (js ''needs_asset_generation'', JBool True),
             (js ''asset_generation_prompt'', JStr (js ''avatar''))]\<rparr>"
  using parseInspectorResponse_total [of JSON_parse response_description_only]
    parseInspectorResponse_total [of JSON_parse response_with_prompt]
  by (simp add: parseInspectorResponse_def try_catch_def clean_description parse_description
      clean_with_prompt parse_with_prompt
      validate_report_def get_prop_def is_boolean_def is_array_def elements_def value_of_def
      normalize_defect_def is_string_def or_else_def defect_id_def js_Nil js_Cons
      DefectReport_shape_any_prompt_def absent_or_falsy_def)

text \<open>
  The prompt is not type-checked: a response that is valid JSON with the three required
  fields and the number 5 as \<open>asset_generation_prompt\<close> is accepted, and the result
  carries the number, which is neither a string nor null.
\<close>

theorem parseInspectorResponse_numeric_prompt_counterexample:
  "parseInspectorResponse JSON_parse response_numeric_prompt =
     Inr \<lparr>i_success = True, i_error = None,
          i_data = JObj
            [(js ''looks_good'', JBool True),
             (js ''visual_defects'', JArr []),
             (js ''needs_asset_generation'', JBool False),
             (js ''asset_generation_prompt'', JNum (Finite 5))]\<rparr>
   \<and> \<not> DefectReport_shape (JObj
            [(js ''looks_good'', JBool True),
             (js ''visual_defects'', JArr []),
             (js ''needs_asset_generation'', JBool False),
             (js ''asset_generation_prompt'', JNum (Finite 5))])
   \<and> \<not> is_string (Some (JNum (Finite 5))) \<and> JNum (Finite 5) \<noteq> JNull"
  by (simp add: parseInspectorResponse_def try_catch_def clean_numeric parse_numeric
      validate_report_def get_prop_def is_boolean_def is_array_def elements_def value_of_def
      is_string_def or_else_def js_eq_iff DefectReport_shape_def num_falsy_def)

lemma fallback_fields:
  "field fallback_report (js ''looks_good'') = Some (JBool False)"
  "field fallback_report (js ''needs_asset_generation'') = Some (JBool False)"
  "field fallback_report (js ''visual_defects'') =
     Some (JArr [JObj
             [(js ''id'', JStr (js ''defect-parse-error'')),
              (js ''element'', JStr (js ''unknown'')),
              (js ''element_text'', JNull),
              (js ''selector_hint'', JStr (js ''*'')),
              (js ''issue'', JStr PARSE_ERROR_ISSUE),
              (js ''expected'', JNull),
              (js ''why'', JNull)]])"
  by (simp_all add: fallback_report_def js_eq_iff)

text \<open>
  Claim C2. Whenever \<open>JSON.parse\<close> throws on the cleaned text, or a check of the three
  required top-level fields fails on what it returned, \<open>parseInspectorResponse\<close> returns
  the fallback report with \<open>success = false\<close>; and every result with \<open>success = false\<close>
  carries the fallback report. In that report \<open>looks_good\<close> is false, \<open>visual_defects\<close>
  holds exactly one defect, whose id is \<open>defect-parse-error\<close> and whose issue is the
  warning sign (U+26A0 U+FE0F), \<open>Parse error\<close>, a dash (U+2014) and
  \<open>manual review required\<close>, and \<open>needs_asset_generation\<close> is false.
\<close>

theorem parseInspectorResponse_fallback:
  "(parse (clean_response text) = None
      \<or> (\<exists>parsed e. parse (clean_response text) = Some parsed \<and> validate_report parsed = Inl e)
    \<longrightarrow> (\<exists>e. parseInspectorResponse parse text =
              Inr \<lparr>i_success = False, i_error = Some e, i_data = fallback_report\<rparr>))
   \<and> (\<forall>r. parseInspectorResponse parse text = Inr r \<and> \<not> i_success r
          \<longrightarrow> i_data r = fallback_report)
   \<and> field fallback_report (js ''looks_good'') = Some (JBool False)
   \<and> (\<exists>d. field fallback_report (js ''visual_defects'') = Some (JArr [d])
          \<and> field d (js ''id'') = Some (JStr (js ''defect-parse-error''))
          \<and> field d (js ''issue'') =
              Some (JStr ([9888, 65039] @ js '' Parse error '' @ [8212]
                            @ js '' manual review required'')))
   \<and> field fallback_report (js ''needs_asset_generation'') = Some (JBool False)"
proof (intro conjI)
  show "parse (clean_response text) = None
      \<or> (\<exists>parsed e. parse (clean_response text) = Some parsed \<and> validate_report parsed = Inl e)
    \<longrightarrow> (\<exists>e. parseInspectorResponse parse text =
              Inr \<lparr>i_success = False, i_error = Some e, i_data = fallback_report\<rparr>)"
    by (auto simp: parseInspectorResponse_def try_catch_def)
  show "\<forall>r. parseInspectorResponse parse text = Inr r \<and> \<not> i_success r
          \<longrightarrow> i_data r = fallback_report"
    using parseInspectorResponse_cases [of parse "text"] by auto
  show "field fallback_report (js ''looks_good'') = Some (JBool False)"
    by (rule fallback_fields)
  show "\<exists>d. field fallback_report (js ''visual_defects'') = Some (JArr [d])
          \<and> field d (js ''id'') = Some (JStr (js ''defect-parse-error''))
          \<and> field d (js ''issue'') =
              Some (JStr ([9888, 65039] @ js '' Parse error '' @ [8212]
                            @ js '' manual review required''))"
    by (simp add: fallback_fields(3) js_eq_iff PARSE_ERROR_ISSUE_def)
  show "field fallback_report (js ''needs_asset_generation'') = Some (JBool False)"
    by (rule fallback_fields)
qed

theorem parseInspectorResponse_fallback_witness:
  "JSON_parse (clean_response (js ''Sorry, I cannot see the image.'')) = None
   \<and> parseInspectorResponse JSON_parse (js ''Sorry, I cannot see the image.'') =
       Inr \<lparr>i_success = False, i_error = Some SyntaxError, i_data = fallback_report\<rparr>
   \<and> (\<exists>parsed e. JSON_parse (clean_response response_wrong_type) = Some parsed
          \<and> validate_report parsed = Inl e)
   \<and> parseInspectorResponse JSON_parse response_wrong_type =
       Inr \<lparr>i_success = False,
            i_error = Some (Error (js ''Missing or invalid 'looks_good' field (expected boolean)'')),
            i_data = fallback_report\<rparr>"
  using parseInspectorResponse_fallback [of JSON_parse "js ''Sorry, I cannot see the image.''"]
    parseInspectorResponse_fallback [of JSON_parse response_wrong_type]
  by (simp add: parseInspectorResponse_def try_catch_def clean_garbage parse_garbage
      clean_wrong_type parse_wrong_type validate_report_def get_prop_def is_boolean_def js_eq_iff)

lemma normalize_defect_rich:
  assumes "\<not> is_string (Some d)" "d \<noteq> JNull"
  shows "\<exists>nd. normalize_defect d i = Inr nd
     \<and> field nd (js ''issue'') =
         Some (or_else (field d (js ''issue''))
                (or_else (field d (js ''description'')) (JStr (js ''Unknown issue''))))"
  using assms by (simp add: normalize_defect_def get_prop_def js_eq_iff)

lemma normalize_defect_not_null:
  "normalize_defect d i = Inr nd \<Longrightarrow> is_string (Some d) \<or> d \<noteq> JNull"
  by (auto simp: normalize_defect_def get_prop_def is_string_def)

lemma normalize_defects_nth:
  "normalize_defects ds k = Inr nds \<Longrightarrow>
     length nds = length ds \<and> (\<forall>i < length ds. normalize_defect (ds ! i) (k + i) = Inr (nds ! i))"
proof (induction ds arbitrary: k nds)
  case Nil
  then show ?case by simp
next
  case (Cons d ds)
  from Cons.prems obtain nd nds' where
    nd: "normalize_defect d k = Inr nd" and
    rest: "normalize_defects ds (k + 1) = Inr nds'" and
    nds: "nds = nd # nds'"
    by (auto split: sum.splits)
  from Cons.IH [OF rest] have
    len: "length nds' = length ds" and
    ih: "\<forall>i < length ds. normalize_defect (ds ! i) (k + 1 + i) = Inr (nds' ! i)"
    by auto
  show ?case
  proof (intro conjI allI impI)
    show "length nds = length (d # ds)" using len nds by simp
  next
    fix i assume "i < length (d # ds)"
    then show "normalize_defect ((d # ds) ! i) (k + i) = Inr (nds ! i)"
      using nd ih nds by (cases i) auto
  qed
qed

text \<open>
  Claim C10. In every successfully parsed report, a defect entry that is not a bare string
  (the rich format) is normalized with \<open>issue\<close> set to its own \<open>issue\<close> when that is
  truthy, otherwise to its \<open>description\<close> when that is truthy, and to the default
  \<open>Unknown issue\<close> only when both are absent or falsy. In particular an entry whose
  \<open>issue\<close> is absent or falsy and whose \<open>description\<close> is a non-empty string gets that
  description as its issue.
\<close>

theorem normalized_issue_falls_back_to_description:
  assumes "parseInspectorResponse parse text = Inr r" and "i_success r"
    and "parse (clean_response text) = Some parsed"
    and "i < length (elements (field parsed (js ''visual_defects'')))"
    and "d = elements (field parsed (js ''visual_defects'')) ! i"
    and "\<not> is_string (Some d)"
  shows "\<exists>nds. field (i_data r) (js ''visual_defects'') = Some (JArr nds)
     \<and> length nds = length (elements (field parsed (js ''visual_defects'')))
     \<and> field (nds ! i) (js ''issue'') =
         Some (if \<not> absent_or_falsy (field d (js ''issue'')) then value_of (field d (js ''issue''))
               else if \<not> absent_or_falsy (field d (js ''description''))
                 then value_of (field d (js ''description''))
               else JStr (js ''Unknown issue''))
     \<and> (\<forall>s. absent_or_falsy (field d (js ''issue'')) \<and> field d (js ''description'') = Some (JStr s)
            \<and> s \<noteq> [] \<longrightarrow> field (nds ! i) (js ''issue'') = Some (JStr s))"
proof -
  let ?ds = "elements (field parsed (js ''visual_defects''))"
  from parseInspectorResponse_cases [of parse "text"] assms(1,2,3)
  obtain nds where
    norm: "normalize_defects ?ds 0 = Inr nds" and
    vd: "field (i_data r) (js ''visual_defects'') = Some (JArr nds)"
    by (auto simp: js_eq_iff)
  from normalize_defects_nth [OF norm] assms(4,5) have
    len: "length nds = length ?ds" and
    nth: "normalize_defect d i = Inr (nds ! i)"
    by auto
  from normalize_defect_not_null [OF nth] assms(6) have "d \<noteq> JNull" by simp
  from normalize_defect_rich [OF assms(6) this, of i] nth
  have issue: "field (nds ! i) (js ''issue'') =
         Some (or_else (field d (js ''issue''))
                (or_else (field d (js ''description'')) (JStr (js ''Unknown issue''))))"
    by simp
  have main: "field (nds ! i) (js ''issue'') =
         Some (if \<not> absent_or_falsy (field d (js ''issue'')) then value_of (field d (js ''issue''))
               else if \<not> absent_or_falsy (field d (js ''description''))
                 then value_of (field d (js ''description''))
               else JStr (js ''Unknown issue''))"
    unfolding issue by (simp add: or_else_eq)
  have special: "\<forall>s. absent_or_falsy (field d (js ''issue'')) \<and> field d (js ''description'') = Some (JStr s)
            \<and> s \<noteq> [] \<longrightarrow> field (nds ! i) (js ''issue'') = Some (JStr s)"
    unfolding main by (auto simp: absent_or_falsy_def value_of_def)
  from vd len main special show ?thesis by blast
qed

lemma inspector_description_result:
  "\<exists>r. parseInspectorResponse JSON_parse response_description_only = Inr r \<and> i_success r"
  by (simp add: parseInspectorResponse_def try_catch_def clean_description parse_description
      validate_report_def get_prop_def is_boolean_def is_array_def elements_def
      normalize_defect_def is_string_def js_eq_iff)

theorem normalized_issue_falls_back_to_description_witness:
  "(\<exists>r. parseInspectorResponse JSON_parse response_description_only = Inr r \<and> i_success r
      \<and> (\<exists>nds. field (i_data r) (js ''visual_defects'') = Some (JArr nds)
           \<and> length nds = 1
           \<and> field (nds ! 0) (js ''issue'') = Some (JStr (js ''Low contrast''))))
   \<and> JSON_parse (clean_response response_description_only) =
       Some (JObj [(js ''looks_good'', JBool False),
         (js ''visual_defects'', JArr [JObj [(js ''description'', JStr (js ''Low contrast''))]]),
         (js ''needs_asset_generation'', JBool False)])
   \<and> absent_or_falsy (field (JObj [(js ''description'', JStr (js ''Low contrast''))]) (js ''issue''))
   \<and> \<not> is_string (Some (JObj [(js ''description'', JStr (js ''Low contrast''))]))"
proof -
  let ?d = "JObj [(js ''description'', JStr (js ''Low contrast''))]"
  let ?parsed = "JObj [(js ''looks_good'', JBool False),
         (js ''visual_defects'', JArr [?d]),
         (js ''needs_asset_generation'', JBool False)]"
  obtain r where r: "parseInspectorResponse JSON_parse response_description_only = Inr r"
    and s: "i_success r"
    using inspector_description_result by auto
  have p: "JSON_parse (clean_response response_description_only) = Some ?parsed"
    by (simp add: clean_description parse_description)
  have el: "elements (field ?parsed (js ''visual_defects'')) = [?d]"
    by (simp add: elements_def js_eq_iff)
  have a: "absent_or_falsy (field ?d (js ''issue''))"
    by (simp add: absent_or_falsy_def js_eq_iff)
  have n: "\<not> is_string (Some ?d)"
    by (simp add: is_string_def)
  have dsc: "field ?d (js ''description'') = Some (JStr (js ''Low contrast''))"
    by (simp add: js_eq_iff)
  have ne: "js ''Low contrast'' \<noteq> []"
    by (simp add: js_Cons)
  from normalized_issue_falls_back_to_description [OF r s p, of 0 ?d]
  obtain nds where "field (i_data r) (js ''visual_defects'') = Some (JArr nds)"
    "length nds = 1"
    "field (nds ! 0) (js ''issue'') = Some (JStr (js ''Low contrast''))"
    using el n a dsc ne by auto
  with r s p a n show ?thesis by blast
qed

section \<open>Properties of \<open>mergeDefects\<close>\<close>

lemma api_key_issue_string:
  "has_issue_string a \<Longrightarrow> api_key lc a = Inr (Some (issue_prefix lc a))"
  by (cases a)
    (auto simp: has_issue_string_def api_key_def issue_key_def issue_prefix_def is_string_def
      get_prop_def substring0_def split: option.splits json.splits)

lemma local_key_issue_string:
  "has_issue_string d \<Longrightarrow> local_key lc d = Inr (Some (issue_prefix lc d))"
  by (cases d)
    (auto simp: has_issue_string_def local_key_def issue_key_def issue_prefix_def is_string_def
      get_prop_def substring0_def split: option.splits json.splits)

lemma local_keys_issue_strings:
  "\<forall>d \<in> set ds. has_issue_string d \<Longrightarrow>
     local_keys lc ds = Inr (map (\<lambda>d. Some (issue_prefix lc d)) ds)"
  by (induction ds) (simp_all add: local_key_issue_string)

lemma push_new_issue_strings:
  "\<forall>a \<in> set api. has_issue_string a \<Longrightarrow>
     push_new lc ks api merged =
       Inr (merged @ filter (\<lambda>a. Some (issue_prefix lc a) \<notin> set ks) api)"
  by (induction api arbitrary: merged) (simp_all add: api_key_issue_string)

lemma local_keys_returns:
  "local_keys lc ds = Inr ks \<longleftrightarrow>
     (\<forall>d \<in> set ds. \<exists>k. local_key lc d = Inr k) \<and> map Inr ks = map (local_key lc) ds"
proof (induction ds arbitrary: ks)
  case Nil
  then show ?case by auto
next
  case (Cons d ds)
  show ?case
  proof (cases "local_key lc d")
    case (Inl e)
    then show ?thesis by auto
  next
    case (Inr k)
    show ?thesis
    proof (cases "local_keys lc ds")
      case (Inl e)
      with Cons.IH have "\<not> (\<forall>d \<in> set ds. \<exists>k. local_key lc d = Inr k)
          \<or> (\<forall>ks'. map Inr ks' \<noteq> map (local_key lc) ds)"
        by auto
      with Inl Inr show ?thesis
        by (cases ks) auto
    next
      case r: (Inr ks')
      with Cons.IH [of ks'] have all: "\<forall>d \<in> set ds. \<exists>k. local_key lc d = Inr k"
        and m: "map Inr ks' = map (local_key lc) ds"
        by auto
      have inj: "map Inr xs = map Inr ks' \<longleftrightarrow> xs = ks'" for xs :: "jstring option list"
        by (simp add: inj_map_eq_map)
      from Inr r all m inj show ?thesis
        by (cases ks) (auto simp: m [symmetric])
    qed
  qed
qed

lemma push_new_returns:
  "push_new lc ks api merged = Inr m \<longleftrightarrow>
     (\<forall>a \<in> set api. \<exists>k. api_key lc a = Inr k)
     \<and> m = merged @ filter (\<lambda>a. api_key lc a \<notin> set (map Inr ks)) api"
proof (induction api arbitrary: merged)
  case Nil
  then show ?case by auto
next
  case (Cons a api)
  show ?case
  proof (cases "api_key lc a")
    case (Inl e)
    then show ?thesis by auto
  next
    case (Inr k)
    then show ?thesis
      using Cons.IH [of "if k \<notin> set ks then merged @ [a] else merged"]
      by (auto simp: image_iff)
  qed
qed

lemma mergeDefects_returns:
  "mergeDefects lc local api = Inr merged \<longleftrightarrow>
     (\<forall>d \<in> set local. \<exists>k. local_key lc d = Inr k)
     \<and> (\<forall>a \<in> set api. \<exists>k. api_key lc a = Inr k)
     \<and> merged = local @ filter (\<lambda>a. api_key lc a \<notin> set (map (local_key lc) local)) api"
proof (cases "local_keys lc local")
  case (Inl e)
  with local_keys_returns [of lc local] have
    "\<not> (\<forall>d \<in> set local. \<exists>k. local_key lc d = Inr k)
       \<or> (\<forall>ks. map Inr ks \<noteq> map (local_key lc) local)"
    by auto
  moreover have "\<exists>ks. map Inr ks = map (local_key lc) local"
    if "\<forall>d \<in> set local. \<exists>k. local_key lc d = Inr k"
    using that by (induction local) (auto simp: map_eq_Cons_conv)
  ultimately show ?thesis
    using Inl by (auto simp: mergeDefects_def)
next
  case (Inr ks)
  with local_keys_returns [of lc local ks] have
    all: "\<forall>d \<in> set local. \<exists>k. local_key lc d = Inr k"
    and m: "map Inr ks = map (local_key lc) local"
    by auto
  show ?thesis
    using Inr all push_new_returns [of lc ks api local merged]
    by (simp add: mergeDefects_def m)
qed

lemma key_of_issue:
  "api_key lc (JStr s) = Inr (Some (take 30 (lc s)))"
  "field d (js ''issue'') = Some (JStr s) \<Longrightarrow> local_key lc d = Inr (Some (take 30 (lc s)))"
  "field d (js ''issue'') = Some (JStr s) \<Longrightarrow> api_key lc d = Inr (Some (take 30 (lc s)))"
  "d \<noteq> JNull \<Longrightarrow> absent_or_falsy (field d (js ''issue'')) \<Longrightarrow> is_string (field d (js ''issue'')) \<or>
     local_key lc d = Inr None \<or> local_key lc d = Inl TypeError"
  by (cases d; auto simp: api_key_def local_key_def issue_key_def is_string_def get_prop_def
      substring0_def split: option.splits json.splits)+

text \<open>
  Claim C5. For every list \<open>L\<close> whose elements have issue strings, \<open>mergeDefects(L, L)\<close>
  returns \<open>L\<close> itself, so a list of the same length: nothing is appended. In general, for
  all lists of defects, remote bare strings and defects without an issue included,
  whenever \<open>mergeDefects(local, remote)\<close> returns, its result is the local list, in order,
  followed by those remote defects, in order, whose key no local defect has; and it
  returns exactly when no key throws. The key is the first 30 code units of the
  lower-cased issue text (of the lower-cased string itself for a remote bare string), and
  it is undefined for a defect whose issue is null or absent. This holds for every
  lower-casing function.
\<close>

theorem mergeDefects_dedup:
  "((\<forall>d \<in> set local. has_issue_string d) \<longrightarrow>
      mergeDefects toLowerCase local local = Inr local
      \<and> (\<exists>merged. mergeDefects toLowerCase local local = Inr merged
            \<and> length merged = length local))
   \<and> ((\<forall>d \<in> set local. has_issue_string d) \<and> (\<forall>a \<in> set api. has_issue_string a) \<longrightarrow>
        mergeDefects toLowerCase local api =
          Inr (local @ filter (\<lambda>a. issue_prefix toLowerCase a
                                     \<notin> set (map (issue_prefix toLowerCase) local)) api))
   \<and> (mergeDefects toLowerCase local api = Inr merged \<longleftrightarrow>
        (\<forall>d \<in> set local. \<exists>k. local_key toLowerCase d = Inr k)
        \<and> (\<forall>a \<in> set api. \<exists>k. api_key toLowerCase a = Inr k)
        \<and> merged = local @ filter (\<lambda>a. api_key toLowerCase a
                                         \<notin> set (map (local_key toLowerCase) local)) api)
   \<and> api_key toLowerCase (JStr s) = Inr (Some (take 30 (toLowerCase s)))
   \<and> (field d (js ''issue'') = Some (JStr s) \<longrightarrow>
        local_key toLowerCase d = Inr (Some (take 30 (toLowerCase s)))
        \<and> api_key toLowerCase d = Inr (Some (take 30 (toLowerCase s))))
   \<and> (d \<noteq> JNull \<and> (field d (js ''issue'') = None \<or> field d (js ''issue'') = Some JNull) \<longrightarrow>
        local_key toLowerCase d = Inr None
        \<and> (is_string (Some d) \<or> api_key toLowerCase d = Inr None))"
proof -
  let ?f = "issue_prefix toLowerCase"
  have mem: "(Some (?f a) \<in> (\<lambda>d. Some (?f d)) ` set local) = (?f a \<in> ?f ` set local)" for a
    by auto
  have gen: "mergeDefects toLowerCase local xs =
           Inr (local @ filter (\<lambda>a. ?f a \<notin> set (map ?f local)) xs)"
    if l: "\<forall>d \<in> set local. has_issue_string d" and x: "\<forall>a \<in> set xs. has_issue_string a" for xs
    unfolding mergeDefects_def local_keys_issue_strings [OF l]
    by (simp add: push_new_issue_strings [OF x] mem)
  have idem: "mergeDefects toLowerCase local local = Inr local"
    if l: "\<forall>d \<in> set local. has_issue_string d"
  proof -
    have "filter (\<lambda>a. ?f a \<notin> set (map ?f local)) local = []"
      by (auto simp: filter_empty_conv)
    with gen [OF l l] show ?thesis by simp
  qed
  have k3: "local_key toLowerCase d = Inr None
        \<and> (is_string (Some d) \<or> api_key toLowerCase d = Inr None)"
    if "d \<noteq> JNull" "field d (js ''issue'') = None \<or> field d (js ''issue'') = Some JNull"
    using that
    by (cases d) (auto simp: api_key_def local_key_def issue_key_def is_string_def get_prop_def)
  from idem gen mergeDefects_returns [of toLowerCase local api merged]
    key_of_issue(1) [of toLowerCase s] key_of_issue(2,3) [of d s toLowerCase] k3
  show ?thesis by simp
qed

lemmas merge_eval =
  has_issue_string_def defect_with_issue_def is_string_def issue_prefix_def
  ascii_toLowerCase_def lower_ascii_def js_Nil js_Cons

theorem mergeDefects_dedup_witness:
  "has_issue_string (defect_with_issue ''Padding too small'')
   \<and> has_issue_string (defect_with_issue ''PADDING too small'')
   \<and> has_issue_string (defect_with_issue ''Low contrast'')
   \<and> mergeDefects ascii_toLowerCase [defect_with_issue ''Padding too small'']
        [defect_with_issue ''Padding too small''] = Inr [defect_with_issue ''Padding too small'']
   \<and> mergeDefects ascii_toLowerCase [defect_with_issue ''Padding too small'']
        [defect_with_issue ''PADDING too small'', defect_with_issue ''Low contrast'']
       = Inr [defect_with_issue ''Padding too small'', defect_with_issue ''Low contrast'']
   \<and> mergeDefects ascii_toLowerCase [defect_with_issue ''Padding too small'']
        [JStr (js ''PADDING too small''), JStr (js ''Low contrast''), JObj []]
       = Inr [defect_with_issue ''Padding too small'', JStr (js ''Low contrast''), JObj []]"
proof -
  let ?L = "[defect_with_issue ''Padding too small'']"
  let ?A = "[JStr (js ''PADDING too small''), JStr (js ''Low contrast''), JObj []]"
  have l: "\<forall>d \<in> set ?L. has_issue_string d"
    by (simp add: has_issue_string_def defect_with_issue_def is_string_def js_eq_iff)
  have a: "\<forall>a \<in> set [defect_with_issue ''PADDING too small'', defect_with_issue ''Low contrast''].
         has_issue_string a"
    by (simp add: has_issue_string_def defect_with_issue_def is_string_def js_eq_iff)
  have k1: "issue_prefix ascii_toLowerCase (defect_with_issue ''Padding too small'')
      = js ''padding too small''"
    by (simp add: merge_eval)
  have k2: "issue_prefix ascii_toLowerCase (defect_with_issue ''PADDING too small'')
      = js ''padding too small''"
    by (simp add: merge_eval)
  have k3: "issue_prefix ascii_toLowerCase (defect_with_issue ''Low contrast'')
      = js ''low contrast''"
    by (simp add: merge_eval)
  have lk: "local_key ascii_toLowerCase (defect_with_issue ''Padding too small'')
      = Inr (Some (js ''padding too small''))"
    using local_key_issue_string [of "defect_with_issue ''Padding too small''" ascii_toLowerCase] l
    by (simp add: k1)
  have ak: "api_key ascii_toLowerCase (JStr (js ''PADDING too small''))
        = Inr (Some (js ''padding too small''))"
      "api_key ascii_toLowerCase (JStr (js ''Low contrast'')) = Inr (Some (js ''low contrast''))"
      "api_key ascii_toLowerCase (JObj []) = Inr None"
    by (simp_all add: api_key_def issue_key_def is_string_def get_prop_def substring0_def
        ascii_toLowerCase_def lower_ascii_def js_Nil js_Cons)
  note M = mergeDefects_dedup [of ?L ascii_toLowerCase]
  from M [of "[defect_with_issue ''PADDING too small'', defect_with_issue ''Low contrast'']"] l a
  have one: "mergeDefects ascii_toLowerCase ?L ?L = Inr ?L"
    and two: "mergeDefects ascii_toLowerCase ?L
        [defect_with_issue ''PADDING too small'', defect_with_issue ''Low contrast'']
       = Inr [defect_with_issue ''Padding too small'', defect_with_issue ''Low contrast'']"
    by (simp_all add: k1 k2 k3 js_eq_iff)
  note I = M [of ?A "?L @ filter (\<lambda>a. api_key ascii_toLowerCase a
                                     \<notin> set (map (local_key ascii_toLowerCase) ?L)) ?A"
      "[]" JNull, THEN conjunct2, THEN conjunct2, THEN conjunct1]
  have keys: "\<forall>d \<in> set ?L. \<exists>k. local_key ascii_toLowerCase d = Inr k"
    "\<forall>a \<in> set ?A. \<exists>k. api_key ascii_toLowerCase a = Inr k"
    by (simp_all add: lk ak)
  from I keys
  have "mergeDefects ascii_toLowerCase ?L ?A =
      Inr (?L @ filter (\<lambda>a. api_key ascii_toLowerCase a
                                     \<notin> set (map (local_key ascii_toLowerCase) ?L)) ?A)"
    by blast
  then have three: "mergeDefects ascii_toLowerCase ?L ?A
       = Inr [defect_with_issue ''Padding too small'', JStr (js ''Low contrast''), JObj []]"
    by (simp add: lk ak js_eq_iff)
  from l a one two three show ?thesis by simp
qed

section \<open>Properties of the heal orchestrator\<close>

text \<open>
  Every path through the body of the loop ends in \<open>return\<close> or \<open>break\<close>, so the loop
  makes at most one pass.
\<close>

lemma while_loop_once:
  "while_loop S opts st =
     (if iteration st < maxIterations opts then loop_body S opts st else Break st)"
  using loop_body_never_continues [of S opts st]
  by (subst while_loop.simps) (simp split: ctl.splits)

lemma loop_body_verify: "loop_body S (opts\<lparr>verify := v\<rparr>) st = loop_body S opts st"
  unfolding loop_body_def if_cancel by simp

lemma while_loop_verify: "while_loop S (opts\<lparr>verify := v\<rparr>) st = while_loop S opts st"
  by (simp add: while_loop_once loop_body_verify)

lemma write_result_verify: "write_result (opts\<lparr>verify := v\<rparr>) st = write_result opts st"
  by (simp add: write_result_def Let_def)

lemma runFlowState_verify: "runFlowState S (opts\<lparr>verify := v\<rparr>) w0 = runFlowState S opts w0"
  by (simp add: runFlowState_def while_loop_verify write_result_verify
      cong: option.case_cong ctl.case_cong)

lemma loop_body_patched:
  assumes "inspect S (inspectCalls (world st)) (screenshotPath opts) = Inr (Inspected dat)"
    and "\<not> looks_good dat"
    and "operateOnCode S (patchCalls (world st)) (currentCode st) (visual_defects dat)
           = Inr (Patched code1)"
  shows "\<exists>st'. loop_body S opts st = Break st'
     \<and> currentCode st' = code1
     \<and> length (iterations (result st')) = length (iterations (result st)) + 1
     \<and> inspectCalls (world st') = inspectCalls (world st) + 1
     \<and> patchCalls (world st') = patchCalls (world st) + 1
     \<and> files (world st') = files (world st)"
  using assms unfolding loop_body_def if_cancel
  by (simp add: Let_def push_iteration_def)

lemma loop_body_calls:
  "(case loop_body S opts st of
      Throw e st' \<Rightarrow> world st'
    | Return st' \<Rightarrow> world st'
    | Break st' \<Rightarrow> world st'
    | Continue st' \<Rightarrow> world st')
   \<in> {(world st)\<lparr>inspectCalls := inspectCalls (world st) + 1\<rparr>,
       (world st)\<lparr>inspectCalls := inspectCalls (world st) + 1,
                   patchCalls := patchCalls (world st) + 1\<rparr>}"
  unfolding loop_body_def if_cancel
  by (simp add: Let_def split: sum.splits inspection_reply.splits surgery_reply.splits)


lemma write_result_calls:
  "inspectCalls (snd (write_result opts st)) = inspectCalls (world st)
   \<and> patchCalls (snd (write_result opts st)) = patchCalls (world st)"
  by (simp add: write_result_def Let_def)

lemma runFlowState_calls:
  "inspectCalls (snd (runFlowState S opts w0)) \<in> {inspectCalls w0, inspectCalls w0 + 1}
   \<and> patchCalls (snd (runFlowState S opts w0)) \<in> {patchCalls w0, patchCalls w0 + 1}
   \<and> (maxIterations opts \<le> 0 \<longrightarrow>
         inspectCalls (snd (runFlowState S opts w0)) = inspectCalls w0
         \<and> patchCalls (snd (runFlowState S opts w0)) = patchCalls w0)"
proof (cases "files w0 (codePath opts)")
  case None
  then show ?thesis by (simp add: runFlowState_def)
next
  case (Some code)
  let ?st = "\<lparr>iteration = 0, currentCode = code, result = initial_result, world = w0\<rparr>"
  show ?thesis
  proof (cases "0 < maxIterations opts")
    case False
    then have "while_loop S opts ?st = Break ?st"
      by (simp add: while_loop_once)
    with Some False show ?thesis
      by (simp add: runFlowState_def write_result_calls)
  next
    case True
    then have loop: "while_loop S opts ?st = loop_body S opts ?st"
      by (simp add: while_loop_once)
    have run: "runFlowState S opts w0 =
        (case loop_body S opts ?st of
             Throw e st \<Rightarrow> (Inl e, world st)
           | Return st \<Rightarrow> (Inr (result st), world st)
           | Break st \<Rightarrow> write_result opts st
           | Continue st \<Rightarrow> write_result opts st)"
      using Some by (simp add: runFlowState_def loop)
    from loop_body_calls [of S opts ?st]
    show ?thesis
      unfolding run using True
      by (cases "loop_body S opts ?st") (auto simp: write_result_calls)
  qed
qed

lemma runFlowState_one_pass:
  assumes "files w0 (codePath opts) = Some code0"
    and "1 \<le> maxIterations opts"
    and "inspect S (inspectCalls w0) (screenshotPath opts) = Inr (Inspected dat)"
    and "\<not> looks_good dat"
    and "operateOnCode S (patchCalls w0) code0 (visual_defects dat) = Inr (Patched code1)"
  shows "\<exists>r w1. runFlowState S opts w0 = (Inr r, w1)
     \<and> success r \<and> length (iterations r) = 1
     \<and> finalCode r = Some code1
     \<and> previewPath r = Some (preview_path (codePath opts))
     \<and> files w1 (preview_path (codePath opts)) = Some code1
     \<and> inspectCalls w1 = inspectCalls w0 + 1
     \<and> patchCalls w1 = patchCalls w0 + 1"
proof -
  let ?st = "\<lparr>iteration = 0, currentCode = code0, result = initial_result, world = w0\<rparr>"
  from assms(2) have loop: "while_loop S opts ?st = loop_body S opts ?st"
    by (simp add: while_loop_once)
  from loop_body_patched [of S ?st opts dat code1] assms(3,4,5)
  obtain st' where body: "loop_body S opts ?st = Break st'"
    and st': "currentCode st' = code1" "length (iterations (result st')) = 1"
      "inspectCalls (world st') = inspectCalls w0 + 1"
      "patchCalls (world st') = patchCalls w0 + 1"
    by (auto simp: initial_result_def)
  have run: "runFlowState S opts w0 = write_result opts st'"
    using assms(1) by (simp add: runFlowState_def loop body)
  show ?thesis
    unfolding run using st'
    by (simp add: write_result_def Let_def)
qed


text \<open>
  Claim C3 (as amended). The run always ends (the loop is a total function, by the
  termination proof of \<open>while_loop\<close>). For every \<open>maxIterations = N \<ge> 1\<close> one call of
  \<open>runFlowState\<close> performs at most \<open>N\<close> inspection calls and at most \<open>N\<close> patch calls; in
  fact it performs at most one of each, whatever \<open>N\<close> is. When the code file exists, the
  inspection service reports defects on every call and the patch service succeeds on
  every call, the run returns after exactly one pass of the loop (one inspection call, one
  patch call, one recorded iteration) with \<open>success = true\<close>, and the preview file holds
  the final code.
\<close>

theorem runFlowState_call_bound:
  "(1 \<le> maxIterations opts \<longrightarrow>
      int (inspectCalls (snd (runFlowState S opts w0))) \<le> int (inspectCalls w0) + maxIterations opts
      \<and> int (patchCalls (snd (runFlowState S opts w0))) \<le> int (patchCalls w0) + maxIterations opts)
   \<and> inspectCalls (snd (runFlowState S opts w0)) \<in> {inspectCalls w0, inspectCalls w0 + 1}
   \<and> patchCalls (snd (runFlowState S opts w0)) \<in> {patchCalls w0, patchCalls w0 + 1}
   \<and> (1 \<le> maxIterations opts
        \<and> files w0 (codePath opts) \<noteq> None
        \<and> (\<forall>n p. \<exists>dat. inspect S n p = Inr (Inspected dat) \<and> \<not> looks_good dat)
        \<and> (\<forall>n code defects. \<exists>code'. operateOnCode S n code defects = Inr (Patched code'))
      \<longrightarrow> (\<exists>r w1. runFlowState S opts w0 = (Inr r, w1)
             \<and> success r
             \<and> length (iterations r) = 1
             \<and> inspectCalls w1 = inspectCalls w0 + 1
             \<and> patchCalls w1 = patchCalls w0 + 1
             \<and> previewPath r = Some (preview_path (codePath opts))
             \<and> finalCode r \<noteq> None
             \<and> files w1 (preview_path (codePath opts)) = finalCode r))"
proof -
  let ?w = "snd (runFlowState S opts w0)"
  from runFlowState_calls [of S opts w0]
  have i: "inspectCalls ?w \<in> {inspectCalls w0, inspectCalls w0 + 1}"
    and p: "patchCalls ?w \<in> {patchCalls w0, patchCalls w0 + 1}"
    by auto
  have bound: "1 \<le> maxIterations opts \<longrightarrow>
      int (inspectCalls ?w) \<le> int (inspectCalls w0) + maxIterations opts
      \<and> int (patchCalls ?w) \<le> int (patchCalls w0) + maxIterations opts"
    using i p by auto
  have scripted: "\<exists>r w1. runFlowState S opts w0 = (Inr r, w1)
             \<and> success r
             \<and> length (iterations r) = 1
             \<and> inspectCalls w1 = inspectCalls w0 + 1
             \<and> patchCalls w1 = patchCalls w0 + 1
             \<and> previewPath r = Some (preview_path (codePath opts))
             \<and> finalCode r \<noteq> None
             \<and> files w1 (preview_path (codePath opts)) = finalCode r"
    if n: "1 \<le> maxIterations opts"
      and f: "files w0 (codePath opts) \<noteq> None"
      and ins: "\<forall>n p. \<exists>dat. inspect S n p = Inr (Inspected dat) \<and> \<not> looks_good dat"
      and ops: "\<forall>n code defects. \<exists>code'. operateOnCode S n code defects = Inr (Patched code')"
  proof -
    from f obtain code0 where c0: "files w0 (codePath opts) = Some code0" by auto
    from ins obtain dat where
      d: "inspect S (inspectCalls w0) (screenshotPath opts) = Inr (Inspected dat)"
        "\<not> looks_good dat"
      by blast
    from ops obtain code1 where
      c1: "operateOnCode S (patchCalls w0) code0 (visual_defects dat) = Inr (Patched code1)"
      by blast
    from runFlowState_one_pass [OF c0 n d c1] show ?thesis by auto
  qed
  from bound i p scripted show ?thesis by blast
qed

lemma scripted_run:
  "runFlowState scripted_services (scripted_options v 2) scripted_env =
     (Inr \<lparr>success = True,
          iterations =
            [\<lparr>it_iteration = 1, it_inspection = Some (InspectionData defect_report),
              it_surgery = Some (SurgeryDone 33), it_verified = False\<rparr>],
          finalCode = Some (js ''export default function Card() {}''),
          previewPath = Some (preview_path card_path),
          assetPrompt = JNull,
          summary = FixedDefectsSummary 1\<rparr>,
      \<lparr>files = [card_path \<mapsto> js ''export default function Card() { return null }'',
                preview_path card_path \<mapsto> js ''export default function Card() {}''],
       inspectCalls = 1, patchCalls = 1\<rparr>)"
  unfolding runFlowState_def while_loop_once loop_body_def if_cancel
  by (simp add: scripted_services_def scripted_options_def scripted_env_def Let_def
      push_iteration_def initial_result_def write_result_def first_defect_count_def
      defect_report_def js_def)


theorem runFlowState_call_bound_witness:
  "maxIterations (scripted_options True 2) = 2
   \<and> files scripted_env (codePath (scripted_options True 2)) \<noteq> None
   \<and> inspectCalls (snd (runFlowState scripted_services (scripted_options True 2) scripted_env)) = 1
   \<and> patchCalls (snd (runFlowState scripted_services (scripted_options True 2) scripted_env)) = 1
   \<and> returned (runFlowState scripted_services (scripted_options True 2) scripted_env) \<noteq> None"
proof -
  have "maxIterations (scripted_options True 2) = 2"
    by (simp add: scripted_options_def)
  moreover have "files scripted_env (codePath (scripted_options True 2)) \<noteq> None"
    by (simp add: scripted_options_def scripted_env_def)
  moreover have "\<forall>n p. \<exists>dat. inspect scripted_services n p = Inr (Inspected dat) \<and> \<not> looks_good dat"
    by (simp add: scripted_services_def defect_report_def)
  moreover have "\<forall>n code defects. \<exists>code'.
      operateOnCode scripted_services n code defects = Inr (Patched code')"
    by (simp add: scripted_services_def)
  ultimately show ?thesis
    using runFlowState_call_bound [of "scripted_options True 2" scripted_services scripted_env]
    by (auto simp: returned_def scripted_env_def)
qed

text \<open>
  With \<open>maxIterations = 2\<close> and services that always report defects and always patch, the
  run makes one pass, not two.
\<close>

theorem runFlowState_two_iterations_counterexample:
  "maxIterations (scripted_options True 2) = 2
   \<and> inspect scripted_services 0 (screenshotPath (scripted_options True 2))
       = Inr (Inspected defect_report)
   \<and> inspect scripted_services 1 (screenshotPath (scripted_options True 2))
       = Inr (Inspected defect_report)
   \<and> \<not> looks_good defect_report
   \<and> passes_recorded (runFlowState scripted_services (scripted_options True 2) scripted_env) = 1
   \<and> inspectCalls (snd (runFlowState scripted_services (scripted_options True 2) scripted_env)) = 1
   \<and> patchCalls (snd (runFlowState scripted_services (scripted_options True 2) scripted_env)) = 1"
proof -
  have "maxIterations (scripted_options True 2) = 2"
    by (simp add: scripted_options_def)
  moreover have "inspect scripted_services n p = Inr (Inspected defect_report)" for n p
    by (simp add: scripted_services_def)
  moreover have "\<not> looks_good defect_report"
    by (simp add: defect_report_def)
  moreover have
    "passes_recorded (runFlowState scripted_services (scripted_options True 2) scripted_env) = 1"
    "inspectCalls (snd (runFlowState scripted_services (scripted_options True 2) scripted_env)) = 1"
    "patchCalls (snd (runFlowState scripted_services (scripted_options True 2) scripted_env)) = 1"
    unfolding scripted_run by (simp_all add: passes_recorded_def)
  ultimately show ?thesis by simp
qed

text \<open>
  Claim C4. For the same screenshot path, code path, \<open>maxIterations\<close>, file system and
  service responses, \<open>runFlowState\<close> with \<open>verify = true\<close> and with \<open>verify = false\<close>
  return the same result object and leave the same files. From a state in which the first
  inspection found defects and the patch succeeded, both make exactly one pass of the
  loop.
\<close>

theorem runFlowState_verify_irrelevant:
  "runFlowState S (opts\<lparr>verify := True\<rparr>) w0 = runFlowState S (opts\<lparr>verify := False\<rparr>) w0
   \<and> (files w0 (codePath opts) = Some code0
        \<and> 1 \<le> maxIterations opts
        \<and> inspect S (inspectCalls w0) (screenshotPath opts) = Inr (Inspected dat)
        \<and> \<not> looks_good dat
        \<and> operateOnCode S (patchCalls w0) code0 (visual_defects dat) = Inr (Patched code1)
      \<longrightarrow> passes_recorded (runFlowState S (opts\<lparr>verify := True\<rparr>) w0) = 1
          \<and> passes_recorded (runFlowState S (opts\<lparr>verify := False\<rparr>) w0) = 1
          \<and> inspectCalls (snd (runFlowState S (opts\<lparr>verify := True\<rparr>) w0)) = inspectCalls w0 + 1
          \<and> patchCalls (snd (runFlowState S (opts\<lparr>verify := True\<rparr>) w0)) = patchCalls w0 + 1)"
proof -
  have eq: "runFlowState S (opts\<lparr>verify := v\<rparr>) w0 = runFlowState S opts w0" for v
    by (rule runFlowState_verify)
  have one: "passes_recorded (runFlowState S opts w0) = 1
          \<and> inspectCalls (snd (runFlowState S opts w0)) = inspectCalls w0 + 1
          \<and> patchCalls (snd (runFlowState S opts w0)) = patchCalls w0 + 1"
    if "files w0 (codePath opts) = Some code0"
      and "1 \<le> maxIterations opts"
      and "inspect S (inspectCalls w0) (screenshotPath opts) = Inr (Inspected dat)"
      and "\<not> looks_good dat"
      and "operateOnCode S (patchCalls w0) code0 (visual_defects dat) = Inr (Patched code1)"
    using runFlowState_one_pass [OF that] by (auto simp: passes_recorded_def)
  from one show ?thesis by (simp add: eq)
qed

theorem runFlowState_verify_irrelevant_witness:
  "runFlowState scripted_services ((scripted_options True 2)\<lparr>verify := True\<rparr>) scripted_env
     = runFlowState scripted_services ((scripted_options True 2)\<lparr>verify := False\<rparr>) scripted_env
   \<and> files scripted_env (codePath (scripted_options True 2))
       = Some (js ''export default function Card() { return null }'')
   \<and> \<not> looks_good defect_report
   \<and> passes_recorded
        (runFlowState scripted_services ((scripted_options True 2)\<lparr>verify := True\<rparr>) scripted_env) = 1
   \<and> passes_recorded
        (runFlowState scripted_services ((scripted_options True 2)\<lparr>verify := False\<rparr>) scripted_env) = 1"
  using runFlowState_verify_irrelevant [of scripted_services "scripted_options True 2" scripted_env
      "js ''export default function Card() { return null }''" defect_report
      "js ''export default function Card() {}''"]
  by (simp add: scripted_options_def scripted_env_def scripted_services_def defect_report_def)

end
